theory Spec2Isabelle
  imports Main "HOL-Library.Word"
begin

section \<open>Data model of the cluster controller\<close>

text \<open>
  The types follow the Go structures the controller reads and writes. Only the fields
  that the modelled functions touch are kept. Go maps with string keys whose content is
  compared or printed (labels, config map data) are association lists in the order in
  which the source inserts the keys.
\<close>

datatype error = Err string | NotFound | NoIP | Panic string

record cluster =
  Name :: string
  Namespace :: string
  APIVersion :: string
  Kind :: string
  UID :: string
  Version :: string
  ReplicationMode :: string
  StorageEngine :: string
  ConnectionString :: string
  Configured :: bool
  NextInstanceID :: "64 word"

record owner_reference =
  or_APIVersion :: string
  or_Kind :: string
  or_Name :: string
  or_UID :: string
  or_Controller :: "bool option"

record container =
  c_Name :: string
  c_Image :: string
  c_Env :: "(string \<times> string) list"
  c_Command :: "string list"
  c_Args :: "string list"
  c_VolumeMounts :: "(string \<times> string) list"

datatype volume_source =
  EmptyDir
| ConfigMapSource string "(string \<times> string) list"

record volume =
  v_Name :: string
  v_Source :: volume_source

record pod_spec =
  InitContainers :: "container list"
  Containers :: "container list"
  Volumes :: "volume list"

record pod =
  p_Name :: string
  p_Namespace :: string
  p_Labels :: "(string \<times> string) list"
  p_OwnerReferences :: "owner_reference list"
  p_Spec :: pod_spec
  p_PodIP :: string

record config_map =
  cm_Namespace :: string
  cm_Name :: string
  cm_Labels :: "(string \<times> string) list"
  cm_OwnerReferences :: "owner_reference list"
  cm_Data :: "(string \<times> string) list"

section \<open>Printing integers\<close>

definition digit_char :: "nat \<Rightarrow> char" where
  "digit_char d = char_of (48 + d)"

fun nat_digits :: "nat \<Rightarrow> string" where
  "nat_digits n = (if n < 10 then [digit_char n] else nat_digits (n div 10) @ [digit_char (n mod 10)])"

declare nat_digits.simps [simp del]

text \<open>\<open>strconv.Itoa\<close> and the verb \<open>%d\<close> on a Go \<open>int\<close> (64 bits, signed).\<close>

definition Itoa :: "64 word \<Rightarrow> string" where
  "Itoa w = (if sint w < 0 then CHR ''-'' # nat_digits (nat (- sint w)) else nat_digits (nat (sint w)))"

section \<open>Desired-state builders of \<open>foundationdbcluster_controller.go\<close>\<close>

text \<open>\<open>strings.Join\<close>.\<close>

fun Join :: "string list \<Rightarrow> string \<Rightarrow> string" where
  "Join [] sep = []"
| "Join [x] sep = x"
| "Join (x # y # ys) sep = x @ sep @ Join (y # ys) sep"

definition processClasses :: "string list" where
  "processClasses = [''storage'']"

definition buildOwnerReference :: "cluster \<Rightarrow> owner_reference list" where
  "buildOwnerReference cl =
     [\<lparr>or_APIVersion = APIVersion cl, or_Kind = Kind cl, or_Name = Name cl,
       or_UID = UID cl, or_Controller = Some True\<rparr>]"

definition GetMonitorConf :: "cluster \<Rightarrow> string \<Rightarrow> string" where
  "GetMonitorConf cl processClass =
     Join ([''[general]'',
            ''kill_on_configuration_change = false'',
            ''restart_delay = 60'']
           @ [''[fdbserver.1]'',
              ''command = /var/dynamic-conf/bin/'' @ Version cl @ ''/fdbserver'',
              ''cluster_file = /var/fdb/data/fdb.cluster'',
              ''seed_cluster_file = /var/dynamic-conf/fdb.cluster'',
              ''public_address = $FDB_PUBLIC_IP:4500'',
              ''class = '' @ processClass,
              ''datadir = /var/fdb/data'',
              ''logdir = /var/log/fdb-trace-logs'',
              ''loggroup = '' @ Name cl,
              ''locality_machineid = $HOSTNAME'',
              ''locality_zoneid = $HOSTNAME'']) [CHR 0x0A]"

text \<open>
  Assignment \<open>data[k] = v\<close> on the association list that stands for a Go map: an
  existing key keeps its place, a new key goes to the end.
\<close>

fun map_set :: "(string \<times> string) list \<Rightarrow> string \<Rightarrow> string \<Rightarrow> (string \<times> string) list" where
  "map_set [] k v = [(k, v)]"
| "map_set ((k', v') # m) k v = (if k' = k then (k, v) # m else (k', v') # map_set m k v)"

text \<open>The loop of \<open>GetConfigMap\<close> over the process classes.\<close>

fun monitor_conf_entries ::
  "cluster \<Rightarrow> string list \<Rightarrow> (string \<times> string) list \<Rightarrow> (string \<times> string) list" where
  "monitor_conf_entries cl [] data = data"
| "monitor_conf_entries cl (processClass # rest) data =
     (let filename = ''fdbmonitor-conf-'' @ processClass in
      if ConnectionString cl = [] then monitor_conf_entries cl rest (map_set data filename [])
      else monitor_conf_entries cl rest (map_set data filename (GetMonitorConf cl processClass)))"

text \<open>
  The document handed to \<open>json.Marshal\<close> in \<open>GetConfigMap\<close>. The encoder of the Go
  standard library is not part of the repository: it is the parameter \<open>marshal\<close>, which
  may fail.
\<close>

datatype json = JString string | JArray "json list" | JObject "(string \<times> json) list"

definition sidecarConf :: json where
  "sidecarConf = JObject
     [(''COPY_BINARIES'', JArray [JString ''fdbserver'', JString ''fdbcli'']),
      (''COPY_FILES'', JArray [JString ''fdb.cluster'']),
      (''COPY_LIBRARIES'', JArray []),
      (''INPUT_MONITOR_CONF'', JString ''fdbmonitor.conf'')]"

definition GetConfigMap :: "(json \<Rightarrow> error + string) \<Rightarrow> cluster \<Rightarrow> error + config_map" where
  "GetConfigMap marshal cl =
     (let connectionString = ConnectionString cl;
          data = map_set [] ''cluster-file'' connectionString;
          data = monitor_conf_entries cl processClasses data
      in case marshal sidecarConf of
           Inl err \<Rightarrow> Inl err
         | Inr sidecarConfData \<Rightarrow>
             Inr \<lparr>cm_Namespace = Namespace cl,
                  cm_Name = Name cl @ ''-config'',
                  cm_Labels = [(''fdb-cluster-name'', Name cl)],
                  cm_OwnerReferences = buildOwnerReference cl,
                  cm_Data = map_set data ''sidecar-conf'' sidecarConfData\<rparr>)"

text \<open>
  \<open>GetPodSpec\<close>; \<open>DockerImageRoot\<close> is a package variable of the source and is passed
  in as \<open>root\<close>.
\<close>

definition mainContainer :: "string \<Rightarrow> cluster \<Rightarrow> container" where
  "mainContainer root cl =
     \<lparr>c_Name = ''foundationdb'',
      c_Image = root @ ''/foundationdb:'' @ Version cl,
      c_Env = [(''FDB_CLUSTER_FILE'', ''/var/dynamic-conf/fdb.cluster'')],
      c_Command = [''sh'', ''-c''],
      c_Args = [''fdbmonitor --conffile /var/dynamic-conf/fdbmonitor.conf''
                @ '' --lockfile /var/fdb/fdbmonitor.lockfile''],
      c_VolumeMounts = [(''data'', ''/var/fdb/data''),
                        (''dynamic-conf'', ''/var/dynamic-conf''),
                        (''fdb-trace-logs'', ''/var/log/fdb-trace-logs'')]\<rparr>"

definition initContainer :: "string \<Rightarrow> cluster \<Rightarrow> container" where
  "initContainer root cl =
     \<lparr>c_Name = ''foundationdb-kubernetes-init'',
      c_Image = root @ ''/foundationdb-kubernetes-sidecar:'' @ Version cl,
      c_Env = [(''COPY_ONCE'', ''1''), (''SIDECAR_CONF_DIR'', ''/var/input-files'')],
      c_Command = [],
      c_Args = [],
      c_VolumeMounts = [(''config-map'', ''/var/input-files''),
                        (''dynamic-conf'', ''/var/output-files'')]\<rparr>"

definition sidecarContainer :: "string \<Rightarrow> cluster \<Rightarrow> container" where
  "sidecarContainer root cl =
     \<lparr>c_Name = ''foundationdb-kubernetes-sidecar'',
      c_Image = c_Image (initContainer root cl),
      c_Env = drop 1 (c_Env (initContainer root cl)),
      c_Command = [],
      c_Args = [],
      c_VolumeMounts = c_VolumeMounts (initContainer root cl)\<rparr>"

definition GetPodSpec :: "string \<Rightarrow> cluster \<Rightarrow> string \<Rightarrow> pod_spec" where
  "GetPodSpec root cl processClass =
     \<lparr>InitContainers = [initContainer root cl],
      Containers = [mainContainer root cl, sidecarContainer root cl],
      Volumes =
        [\<lparr>v_Name = ''data'', v_Source = EmptyDir\<rparr>,
         \<lparr>v_Name = ''dynamic-conf'', v_Source = EmptyDir\<rparr>,
         \<lparr>v_Name = ''config-map'',
           v_Source = ConfigMapSource (Name cl @ ''-config'')
             [(''fdbmonitor-conf-'' @ processClass, ''fdbmonitor.conf''),
              (''cluster-file'', ''fdb.cluster''),
              (''sidecar-conf'', ''config.json'')]\<rparr>,
         \<lparr>v_Name = ''fdb-trace-logs'', v_Source = EmptyDir\<rparr>]\<rparr>"

definition GetPod :: "string \<Rightarrow> cluster \<Rightarrow> string \<Rightarrow> 64 word \<Rightarrow> pod" where
  "GetPod root cl processClass ident =
     \<lparr>p_Name = Name cl @ ''-'' @ Itoa ident,
      p_Namespace = Namespace cl,
      p_Labels = [(''fdb-cluster-name'', Name cl),
                  (''fdb-process-class'', processClass),
                  (''fdb-instance-id'', Itoa ident)],
      p_OwnerReferences = buildOwnerReference cl,
      p_Spec = GetPodSpec root cl processClass,
      p_PodIP = []\<rparr>"

section \<open>The platform seen by the reconciler\<close>

text \<open>
  Every request that reaches the platform, a sidecar or the database is recorded in a
  history. The reconciler's collaborators answer as arbitrary functions of the history
  so far, which covers every store behaviour and every failure.
\<close>

datatype call =
    ClusterGet
  | ClusterUpdate cluster
  | ConfigMapGet string string
  | ConfigMapCreate config_map
  | ConfigMapUpdate config_map
  | PodList string "(string \<times> string) list"
  | PodCreate pod
  | PodGet string string
  | PodClientNew pod
  | PodClientSpawn pod
  | DynamicConfSpawn pod
  | AdminClientNew
  | DatabaseConfigure string string bool

text \<open>
  \<open>ReconcileFoundationDBCluster\<close>: the embedded client and the two providers. A pod
  client is represented by what \<open>GetPodIP\<close> returns. \<open>UpdateDynamicFiles\<close> stands for
  the two file updates of one pod and yields their signals in the order in which they are
  sent; \<open>arrival\<close> is the order in which the goroutines started by
  \<open>generateInitialClusterFile\<close> deliver their result.
\<close>

record reconciler =
  Get_cluster :: "call list \<Rightarrow> error + cluster"
  Update_cluster :: "call list \<Rightarrow> cluster \<Rightarrow> error option"
  Get_config_map :: "call list \<Rightarrow> string \<Rightarrow> string \<Rightarrow> error + config_map"
  Create_config_map :: "call list \<Rightarrow> config_map \<Rightarrow> error option"
  Update_config_map :: "call list \<Rightarrow> config_map \<Rightarrow> error option"
  List_pods :: "call list \<Rightarrow> string \<Rightarrow> (string \<times> string) list \<Rightarrow> error + pod list"
  Create_pod :: "call list \<Rightarrow> pod \<Rightarrow> error option"
  Get_pod :: "call list \<Rightarrow> string \<Rightarrow> string \<Rightarrow> error + pod"
  podClientProvider :: "call list \<Rightarrow> cluster \<Rightarrow> pod \<Rightarrow> error + string"
  adminClientProvider :: "call list \<Rightarrow> cluster \<Rightarrow> error option"
  ConfigureDatabase :: "call list \<Rightarrow> string \<Rightarrow> string \<Rightarrow> bool \<Rightarrow> error option"
  UpdateDynamicFiles :: "call list \<Rightarrow> string \<Rightarrow> (string \<times> string) list \<Rightarrow> error option list"
  arrival :: "call list \<Rightarrow> nat \<Rightarrow> nat list"

text \<open>
  Code of the repository that the sources do not contain: the two counting methods of
  the cluster type, the JSON encoder and the package variable \<open>DockerImageRoot\<close>.
\<close>

record deps =
  DesiredProcessCount :: "cluster \<Rightarrow> string \<Rightarrow> 64 word"
  DesiredCoordinatorCount :: "cluster \<Rightarrow> int"
  marshal :: "json \<Rightarrow> error + string"
  DockerImageRoot :: string

text \<open>The cluster object held in memory during one pass, and the history.\<close>

record state =
  st_cluster :: cluster
  st_hist :: "call list"

section \<open>Steps of \<open>foundationdbcluster_controller.go\<close>\<close>

definition setDefaultValues :: "reconciler \<Rightarrow> state \<Rightarrow> (error option \<times> state) option" where
  "setDefaultValues r s =
     (let cl = st_cluster s;
          changed = False;
          (cl, changed) = (if ReplicationMode cl = [] then (cl\<lparr>ReplicationMode := ''double''\<rparr>, True)
                           else (cl, changed));
          (cl, changed) = (if StorageEngine cl = [] then (cl\<lparr>StorageEngine := ''ssd''\<rparr>, True)
                           else (cl, changed));
          h = st_hist s
      in if changed then
           (case Update_cluster r h cl of
              Some err \<Rightarrow> Some (Some err, \<lparr>st_cluster = cl, st_hist = h @ [ClusterUpdate cl]\<rparr>)
            | None \<Rightarrow>
                (case Get_cluster r (h @ [ClusterUpdate cl]) of
                   Inl err \<Rightarrow>
                     Some (Some err, \<lparr>st_cluster = cl, st_hist = h @ [ClusterUpdate cl, ClusterGet]\<rparr>)
                 | Inr cl' \<Rightarrow>
                     Some (None, \<lparr>st_cluster = cl', st_hist = h @ [ClusterUpdate cl, ClusterGet]\<rparr>)))
         else Some (None, \<lparr>st_cluster = cl, st_hist = h\<rparr>))"

definition getPodLabels :: "cluster \<Rightarrow> string \<Rightarrow> (string \<times> string) list" where
  "getPodLabels cl processClass =
     (let labels = [(''fdb-cluster-name'', Name cl)]
      in if processClass \<noteq> [] then map_set labels ''fdb-process-class'' processClass else labels)"

text \<open>
  \<open>getPodClient\<close> retries for as long as the provider answers that the pod has no
  address; a goroutine that retries forever never delivers, which is the value \<open>None\<close>.
\<close>

partial_function (option) getPodClient ::
  "reconciler \<Rightarrow> call list \<Rightarrow> cluster \<Rightarrow> pod \<Rightarrow> (error + string) option" where
  "getPodClient r h cl pod =
     (case podClientProvider r h cl pod of
        Inr client \<Rightarrow> Some (Inr client)
      | Inl err \<Rightarrow>
          if err = NoIP then
            (case Get_pod r (h @ [PodClientNew pod]) (p_Namespace pod) (p_Name pod) of
               Inl err' \<Rightarrow> Some (Inl err')
             | Inr pod' \<Rightarrow>
                 getPodClient r (h @ [PodClientNew pod, PodGet (p_Namespace pod) (p_Name pod)]) cl pod')
          else Some (Inl err))"

text \<open>
  \<open>strings.NewReplacer("$FDB_PUBLIC_IP", ip, "$HOSTNAME", name).Replace\<close>: a scan from
  the left that replaces the first pattern found at each position.
\<close>

function Replace2 :: "string \<Rightarrow> string \<Rightarrow> string \<Rightarrow> string" where
  "Replace2 ip name s =
     (if s = [] then []
      else if take 14 s = ''$FDB_PUBLIC_IP'' then ip @ Replace2 ip name (drop 14 s)
      else if take 9 s = ''$HOSTNAME'' then name @ Replace2 ip name (drop 9 s)
      else hd s # Replace2 ip name (tl s))"
  by pat_completeness auto
termination
  by (relation "measure (\<lambda>(ip, name, s). length s)") auto

declare Replace2.simps [simp del]

definition label_of :: "(string \<times> string) list \<Rightarrow> string \<Rightarrow> string" where
  "label_of m k = (case map_of m k of None \<Rightarrow> [] | Some v \<Rightarrow> v)"

definition GetPodMonitorConf :: "cluster \<Rightarrow> pod \<Rightarrow> string" where
  "GetPodMonitorConf cl pod =
     Replace2 (p_PodIP pod) (p_Name pod) (GetMonitorConf cl (label_of (p_Labels pod) ''fdb-process-class''))"

text \<open>
  \<open>updatePodDynamicConf\<close> reads two update signals; the caller receives the first
  value sent on \<open>signal\<close>: the first error among them, or \<open>nil\<close> after both.
\<close>

fun first_signal :: "nat \<Rightarrow> error option list \<Rightarrow> error option option" where
  "first_signal 0 sigs = Some None"
| "first_signal (Suc n) [] = None"
| "first_signal (Suc n) (None # sigs) = first_signal n sigs"
| "first_signal (Suc n) (Some err # sigs) = Some (Some err)"

definition updatePodDynamicConf ::
  "reconciler \<Rightarrow> call list \<Rightarrow> cluster \<Rightarrow> pod \<Rightarrow> error option option" where
  "updatePodDynamicConf r h cl pod =
     (case getPodClient r h cl pod of
        None \<Rightarrow> None
      | Some (Inl err) \<Rightarrow> Some (Some err)
      | Some (Inr client) \<Rightarrow>
          first_signal 2
            (UpdateDynamicFiles r h client
               [(''fdbmonitor.conf'', GetPodMonitorConf cl pod),
                (''fdb.cluster'', ConnectionString cl)]))"

text \<open>The loop of \<open>updateConfigMap\<close> that reads one value from every pod's channel, in order.\<close>

fun await_updates :: "error option option list \<Rightarrow> error option option" where
  "await_updates [] = Some None"
| "await_updates (None # rest) = None"
| "await_updates (Some None # rest) = await_updates rest"
| "await_updates (Some (Some err) # rest) = Some (Some err)"

text \<open>\<open>reflect.DeepEqual\<close> on two maps that are not nil.\<close>

definition DeepEqual :: "(string \<times> string) list \<Rightarrow> (string \<times> string) list \<Rightarrow> bool" where
  "DeepEqual a b = list_all (\<lambda>k. map_of a k = map_of b k) (map fst a @ map fst b)"

definition updateConfigMap :: "deps \<Rightarrow> reconciler \<Rightarrow> state \<Rightarrow> (error option \<times> state) option" where
  "updateConfigMap d r s =
     (let cl = st_cluster s; h = st_hist s in
      case GetConfigMap (marshal d) cl of
        Inl err \<Rightarrow> Some (Some err, s)
      | Inr configMap \<Rightarrow>
          (let h1 = h @ [ConfigMapGet (cm_Namespace configMap) (cm_Name configMap)] in
           case Get_config_map r h (cm_Namespace configMap) (cm_Name configMap) of
             Inl err \<Rightarrow>
               if err = NotFound then
                 Some (Create_config_map r h1 configMap, s\<lparr>st_hist := h1 @ [ConfigMapCreate configMap]\<rparr>)
               else Some (Some err, s\<lparr>st_hist := h1\<rparr>)
           | Inr existing \<Rightarrow>
               (let changed = (\<not> DeepEqual (cm_Data existing) (cm_Data configMap)
                               \<or> \<not> DeepEqual (cm_Labels existing) (cm_Labels configMap));
                    existing' = existing\<lparr>cm_Labels := cm_Labels configMap, cm_Data := cm_Data configMap\<rparr>;
                    h2 = (if changed then h1 @ [ConfigMapUpdate existing'] else h1)
                in case (if changed then Update_config_map r h1 existing' else None) of
                     Some err \<Rightarrow> Some (Some err, s\<lparr>st_hist := h2\<rparr>)
                   | None \<Rightarrow>
                       (let h3 = h2 @ [PodList (Namespace cl) (getPodLabels cl [])] in
                        case List_pods r h2 (Namespace cl) (getPodLabels cl []) of
                          Inl err \<Rightarrow> Some (Some err, s\<lparr>st_hist := h3\<rparr>)
                        | Inr pods \<Rightarrow>
                            (let h4 = h3 @ map DynamicConfSpawn pods in
                             case await_updates (map (updatePodDynamicConf r h3 cl) pods) of
                               None \<Rightarrow> None
                             | Some res \<Rightarrow> Some (res, s\<lparr>st_hist := h4\<rparr>))))))"

text \<open>The creation loop of \<open>addPods\<close>: \<open>n\<close> iterations are left, \<open>ident\<close> is the next id.\<close>

fun create_pods ::
  "deps \<Rightarrow> reconciler \<Rightarrow> cluster \<Rightarrow> string \<Rightarrow> nat \<Rightarrow> 64 word \<Rightarrow> call list
     \<Rightarrow> (error + 64 word) \<times> call list" where
  "create_pods d r cl processClass 0 ident h = (Inr ident, h)"
| "create_pods d r cl processClass (Suc n) ident h =
     (let p = GetPod (DockerImageRoot d) cl processClass ident in
      case Create_pod r h p of
        Some err \<Rightarrow> (Inl err, h @ [PodCreate p])
      | None \<Rightarrow> create_pods d r cl processClass n (ident + 1) (h @ [PodCreate p]))"

text \<open>The body of \<open>addPods\<close>, over the process classes that are left.\<close>

fun addPods_classes :: "deps \<Rightarrow> reconciler \<Rightarrow> string list \<Rightarrow> state \<Rightarrow> error option \<times> state" where
  "addPods_classes d r [] s = (None, s)"
| "addPods_classes d r (processClass # rest) s =
     (let cl = st_cluster s; h = st_hist s;
          h1 = h @ [PodList (Namespace cl) (getPodLabels cl processClass)] in
      case List_pods r h (Namespace cl) (getPodLabels cl processClass) of
        Inl err \<Rightarrow> (Some err, s\<lparr>st_hist := h1\<rparr>)
      | Inr existingPods \<Rightarrow>
          (let desiredCount = DesiredProcessCount d cl processClass;
               newCount = desiredCount - word_of_nat (length existingPods) in
           if 0 < sint newCount then
             (let ident = NextInstanceID cl;
                  ident = (if sint ident < 1 then 1 else ident) in
              case create_pods d r cl processClass (nat (sint newCount)) ident h1 of
                (Inl err, h2) \<Rightarrow> (Some err, s\<lparr>st_hist := h2\<rparr>)
              | (Inr ident', h2) \<Rightarrow>
                  (let cl' = cl\<lparr>NextInstanceID := ident'\<rparr>;
                       s' = \<lparr>st_cluster = cl', st_hist = h2 @ [ClusterUpdate cl']\<rparr> in
                   case Update_cluster r h2 cl' of
                     Some err \<Rightarrow> (Some err, s')
                   | None \<Rightarrow> addPods_classes d r rest s'))
           else addPods_classes d r rest (s\<lparr>st_hist := h1\<rparr>)))"

definition addPods :: "deps \<Rightarrow> reconciler \<Rightarrow> state \<Rightarrow> (error option \<times> state) option" where
  "addPods d r s = Some (addPods_classes d r processClasses s)"

section \<open>Coordinator bootstrap\<close>

text \<open>
  \<open>connectionStringNameRegex.ReplaceAllString(name, "_")\<close> with the expression
  \<open>[^A-Za-z0-9_]\<close>. The regular expression engine reads the string rune by rune: a
  well-formed UTF-8 sequence is one rune, any other byte is one rune of width one, and
  every rune outside the class is replaced by one underscore.
\<close>

definition name_char :: "char \<Rightarrow> bool" where
  "name_char c =
     (let b = (of_char c :: nat)
      in (65 \<le> b \<and> b \<le> 90) \<or> (97 \<le> b \<and> b \<le> 122) \<or> (48 \<le> b \<and> b \<le> 57) \<or> b = 95)"

definition between :: "nat \<Rightarrow> nat \<Rightarrow> nat \<Rightarrow> bool" where
  "between lo hi b = (lo \<le> b \<and> b \<le> hi)"

text \<open>The width of the first rune of a byte sequence, as \<open>utf8.DecodeRuneInString\<close> finds it.\<close>

fun rune_width :: "nat list \<Rightarrow> nat" where
  "rune_width [] = 0"
| "rune_width (b0 # bs) =
     (if b0 < 128 then 1
      else if between 194 223 b0 then
        (case bs of b1 # _ \<Rightarrow> if between 128 191 b1 then 2 else 1 | _ \<Rightarrow> 1)
      else if between 224 239 b0 then
        (case bs of
           b1 # b2 # _ \<Rightarrow>
             if between (if b0 = 224 then 160 else 128) (if b0 = 237 then 159 else 191) b1
                \<and> between 128 191 b2 then 3 else 1
         | _ \<Rightarrow> 1)
      else if between 240 244 b0 then
        (case bs of
           b1 # b2 # b3 # _ \<Rightarrow>
             if between (if b0 = 240 then 144 else 128) (if b0 = 244 then 143 else 191) b1
                \<and> between 128 191 b2 \<and> between 128 191 b3 then 4 else 1
         | _ \<Rightarrow> 1)
      else 1)"

function sanitize :: "string \<Rightarrow> string" where
  "sanitize [] = []"
| "sanitize (c # cs) =
     (if (of_char c :: nat) < 128 then (if name_char c then c else CHR ''_'') # sanitize cs
      else CHR ''_'' # sanitize (drop (rune_width (map of_char (c # cs)) - 1) cs))"
  by pat_completeness auto
termination
  by (relation "measure length") auto

declare sanitize.simps(2) [simp del]

text \<open>
  The receiving loop of \<open>generateInitialClusterFile\<close>: \<open>n\<close> receptions are left, \<open>i\<close> is
  the loop counter, the list holds what the goroutines deliver in the order of delivery.
  An empty list, or a goroutine that never delivers, blocks the loop for ever.
\<close>

fun receive_clients ::
  "nat \<Rightarrow> nat \<Rightarrow> (error + string) option list \<Rightarrow> string \<Rightarrow> (error + string) option" where
  "receive_clients 0 i ds connectionString = Some (Inr connectionString)"
| "receive_clients (Suc n) i [] connectionString = None"
| "receive_clients (Suc n) i (None # ds) connectionString = None"
| "receive_clients (Suc n) i (Some (Inl err) # ds) connectionString = Some (Inl err)"
| "receive_clients (Suc n) i (Some (Inr ip) # ds) connectionString =
     receive_clients n (Suc i) ds
       ((if i = 0 then connectionString @ ''@'' else connectionString @ '','') @ ip @ '':4500'')"

definition generateInitialClusterFile ::
  "deps \<Rightarrow> reconciler \<Rightarrow> state \<Rightarrow> (error option \<times> state) option" where
  "generateInitialClusterFile d r s =
     (let cl = st_cluster s; h = st_hist s in
      if ConnectionString cl = [] then
        (let h1 = h @ [PodList (Namespace cl) (getPodLabels cl ''storage'')] in
         case List_pods r h (Namespace cl) (getPodLabels cl ''storage'') of
           Inl err \<Rightarrow> Some (Some err, s\<lparr>st_hist := h1\<rparr>)
         | Inr pods \<Rightarrow>
             (let count = DesiredCoordinatorCount d cl in
              if int (length pods) < count then
                Some (Some (Err ''Cannot find enough pods to recruit coordinators''), s\<lparr>st_hist := h1\<rparr>)
              else if count < 0 then
                Some (Some (Panic ''makechan: size out of range''), s\<lparr>st_hist := h1\<rparr>)
              else
                (let n = nat count;
                     h2 = h1 @ map PodClientSpawn (take n pods);
                     delivered = map (\<lambda>j. if j < n then getPodClient r h1 cl (pods ! j) else None)
                                     (arrival r h1 n);
                     clusterName = sanitize (Name cl);
                     connectionString = clusterName @ '':init'' in
                 case receive_clients n 0 delivered connectionString of
                   None \<Rightarrow> None
                 | Some (Inl err) \<Rightarrow> Some (Some err, s\<lparr>st_hist := h2\<rparr>)
                 | Some (Inr connectionString) \<Rightarrow>
                     (let cl' = cl\<lparr>ConnectionString := connectionString\<rparr>;
                          s' = \<lparr>st_cluster = cl', st_hist = h2 @ [ClusterUpdate cl']\<rparr> in
                      case Update_cluster r h2 cl' of
                        Some err \<Rightarrow> Some (Some err, s')
                      | None \<Rightarrow> updateConfigMap d r s'))))
      else Some (None, s))"

text \<open>The connection string of the cluster object in memory when a step has returned.\<close>

definition result_connection_string :: "(error option \<times> state) option \<Rightarrow> string option" where
  "result_connection_string out = map_option (\<lambda>res. ConnectionString (st_cluster (snd res))) out"

section \<open>Database configuration and the reconcile pass\<close>

definition updateDatabaseConfiguration :: "reconciler \<Rightarrow> state \<Rightarrow> (error option \<times> state) option" where
  "updateDatabaseConfiguration r s =
     (let cl = st_cluster s; h = st_hist s in
      if \<not> Configured cl then
        (let h1 = h @ [AdminClientNew] in
         case adminClientProvider r h cl of
           Some err \<Rightarrow> Some (Some err, s\<lparr>st_hist := h1\<rparr>)
         | None \<Rightarrow>
             (let h2 = h1 @ [DatabaseConfigure (ReplicationMode cl) (StorageEngine cl) True] in
              case ConfigureDatabase r h1 (ReplicationMode cl) (StorageEngine cl) True of
                Some err \<Rightarrow> Some (Some err, s\<lparr>st_hist := h2\<rparr>)
              | None \<Rightarrow>
                  (let cl' = cl\<lparr>Configured := True\<rparr>;
                       s' = \<lparr>st_cluster = cl', st_hist = h2 @ [ClusterUpdate cl']\<rparr> in
                   case Update_cluster r h2 cl' of
                     Some err \<Rightarrow> Some (Some err, s')
                   | None \<Rightarrow> Some (None, s'))))
      else Some (None, s))"

text \<open>
  \<open>Reconcile\<close>. The result is the error returned, if any, with the state in which the
  pass ends; a cluster that cannot be fetched leaves no state, and a pass that blocks
  for ever has no result.
\<close>

definition Reconcile ::
  "deps \<Rightarrow> reconciler \<Rightarrow> call list \<Rightarrow> (error option \<times> state option) option" where
  "Reconcile d r h =
     (case Get_cluster r h of
        Inl err \<Rightarrow> if err = NotFound then Some (None, None) else Some (Some err, None)
      | Inr cluster \<Rightarrow>
          (case setDefaultValues r \<lparr>st_cluster = cluster, st_hist = h @ [ClusterGet]\<rparr> of
             None \<Rightarrow> None
           | Some (Some err, s1) \<Rightarrow> Some (Some err, Some s1)
           | Some (None, s1) \<Rightarrow>
               (case updateConfigMap d r s1 of
                  None \<Rightarrow> None
                | Some (Some err, s2) \<Rightarrow> Some (Some err, Some s2)
                | Some (None, s2) \<Rightarrow>
                    (case addPods d r s2 of
                       None \<Rightarrow> None
                     | Some (Some err, s3) \<Rightarrow> Some (Some err, Some s3)
                     | Some (None, s3) \<Rightarrow>
                         (case generateInitialClusterFile d r s3 of
                            None \<Rightarrow> None
                          | Some (Some err, s4) \<Rightarrow> Some (Some err, Some s4)
                          | Some (None, s4) \<Rightarrow>
                              (case updateDatabaseConfiguration r s4 of
                                 None \<Rightarrow> None
                               | Some (Some err, s5) \<Rightarrow> Some (Some err, Some s5)
                               | Some (None, s5) \<Rightarrow> Some (None, Some s5)))))))"

text \<open>
  The pipeline as the specification words it: the steps run in the order of the list,
  the first error ends the pass, and the state is the one that the last step run left.
\<close>

fun run_steps ::
  "(state \<Rightarrow> (error option \<times> state) option) list \<Rightarrow> state \<Rightarrow> (error option \<times> state) option" where
  "run_steps [] s = Some (None, s)"
| "run_steps (step # steps) s =
     (case step s of
        None \<Rightarrow> None
      | Some (Some err, s') \<Rightarrow> Some (Some err, s')
      | Some (None, s') \<Rightarrow> run_steps steps s')"

section \<open>Vocabulary of the statements about \<open>addPods\<close>\<close>

text \<open>The first identifier that \<open>addPods\<close> hands out, and the pods it asks for.\<close>

definition first_id :: "cluster \<Rightarrow> 64 word" where
  "first_id cl = (if sint (NextInstanceID cl) < 1 then 1 else NextInstanceID cl)"

definition new_pods :: "deps \<Rightarrow> cluster \<Rightarrow> string \<Rightarrow> 64 word \<Rightarrow> nat \<Rightarrow> pod list" where
  "new_pods d cl processClass start n =
     map (\<lambda>i. GetPod (DockerImageRoot d) cl processClass (start + word_of_nat i)) [0..<n]"

fun addPods_call :: "call \<Rightarrow> bool" where
  "addPods_call (PodList ns labels) = True"
| "addPods_call (PodCreate p) = True"
| "addPods_call (ClusterUpdate cl) = True"
| "addPods_call _ = False"

fun is_PodCreate :: "call \<Rightarrow> bool" where
  "is_PodCreate (PodCreate p) = True"
| "is_PodCreate _ = False"

text \<open>
  What a run of \<open>addPods\<close> may change: the history grows by list, create and cluster
  update requests only, and the identifier counter moves only if a pod was created.
\<close>

definition addPods_frame :: "state \<Rightarrow> state \<Rightarrow> bool" where
  "addPods_frame s s' =
     (\<exists>ext. st_hist s' = st_hist s @ ext \<and> list_all addPods_call ext
        \<and> (NextInstanceID (st_cluster s') \<noteq> NextInstanceID (st_cluster s) \<longrightarrow> (\<exists>p. PodCreate p \<in> set ext)))"

section \<open>Instances and the cluster object of the \<open>controllers\<close> package\<close>

text \<open>
  An instance as the steps of the \<open>controllers\<close> package see it: whether it has a pod,
  what \<open>GetInstanceID\<close> and \<open>GetProcessClass\<close> return, and the annotations of its
  metadata, a Go map that may be nil. The cluster object carries its UID, its
  specification, the flag \<open>UpdatePodsByReplacement\<close> and the pending removals, again a
  map that may be nil. The type of the specification and the one of a removal state are
  declared outside the sources and stay type variables.
\<close>

record fdb_instance =
  in_HasPod :: bool
  in_InstanceID :: string
  in_ProcessClass :: string
  in_Annotations :: "(string \<rightharpoonup> string) option"

record ('sp, 'rs) fdb_cluster =
  fc_UID :: string
  fc_Spec :: 'sp
  fc_UpdatePodsByReplacement :: bool
  fc_PendingRemovals :: "(string \<rightharpoonup> 'rs) option"

record volume_claim =
  pvc_OwnerUIDs :: "string list"
  pvc_InstanceID :: string
  pvc_ProcessClass :: string
  pvc_Annotations :: "(string \<rightharpoonup> string) option"

text \<open>Reading a Go map of strings: a nil map and a missing key both give the empty string.\<close>

definition annotation_of :: "(string \<rightharpoonup> string) option \<Rightarrow> string \<Rightarrow> string" where
  "annotation_of a k = (case a of None \<Rightarrow> [] | Some m \<Rightarrow> (case m k of None \<Rightarrow> [] | Some v \<Rightarrow> v))"

text \<open>
  Modelled from the spec: the two annotation keys \<open>LastSpecKey\<close> and \<open>LastConfigMapKey\<close>,
  constants that the sources use and do not declare; the specification names the
  annotations \<open>last-applied-spec\<close> and \<open>last-applied-dynamic-conf\<close>.
\<close>

definition LastSpecKey :: string where
  "LastSpecKey = ''last-applied-spec''"

definition LastConfigMapKey :: string where
  "LastConfigMapKey = ''last-applied-dynamic-conf''"

section \<open>\<open>ReplaceMisconfiguredPods\<close>\<close>

text \<open>
  What \<open>ReplaceMisconfiguredPods.Reconcile\<close> calls and the sources do not contain: the
  two listings, the parser and the builder of instance identifiers, the builders of the
  desired pod specification hash and of the desired volume claim (a pointer that may be
  nil, returned with an error value), the JSON hash, the removal state of an instance and
  the update of the cluster status.
\<close>

record ('sp, 'rs, 'claim) replace_deps =
  List_claims :: "error + volume_claim list"
  GetInstances :: "error + fdb_instance list"
  GetInstances_single :: "string \<Rightarrow> error + fdb_instance list"
  ParseInstanceID_dep :: "string \<Rightarrow> error + string \<times> int"
  getInstanceID_dep :: "'sp \<Rightarrow> string \<Rightarrow> int \<Rightarrow> string \<times> string"
  GetPodSpecHash :: "'sp \<Rightarrow> string \<Rightarrow> int \<Rightarrow> error + string"
  GetPvc :: "'sp \<Rightarrow> string \<Rightarrow> int \<Rightarrow> 'claim option \<times> error option"
  GetJSONHash :: "'claim \<Rightarrow> string \<times> error option"
  getPendingRemovalState :: "fdb_instance \<Rightarrow> 'rs"
  Status_Update :: "('sp, 'rs) fdb_cluster \<Rightarrow> error option"

text \<open>
  The body of the first loop, for one volume claim: the error that ends the run, if any,
  with the map of removals and the flag \<open>hasNewRemovals\<close>. Dereferencing a nil desired
  claim panics. The comparison of the hashes is followed by \<open>&& false\<close> in the source.
\<close>

definition claim_step ::
  "('sp, 'rs, 'claim) replace_deps \<Rightarrow> ('sp, 'rs) fdb_cluster \<Rightarrow> volume_claim
     \<Rightarrow> (string \<rightharpoonup> 'rs) \<Rightarrow> bool \<Rightarrow> error option \<times> (string \<rightharpoonup> 'rs) \<times> bool" where
  "claim_step d cl pvc removals hasNewRemovals =
     (let ownedByCluster = (fc_UID cl \<in> set (pvc_OwnerUIDs pvc)) in
      if \<not> ownedByCluster then (None, removals, hasNewRemovals)
      else
        (let instanceID = pvc_InstanceID pvc;
             pendingRemoval = (removals instanceID \<noteq> None) in
         if pendingRemoval then (None, removals, hasNewRemovals)
         else
           (case ParseInstanceID_dep d instanceID of
              Inl err \<Rightarrow> (Some err, removals, hasNewRemovals)
            | Inr (_, idNum) \<Rightarrow>
                (let processClass = pvc_ProcessClass pvc in
                 case fst (GetPvc d (fc_Spec cl) processClass idNum) of
                   None \<Rightarrow> (Some (Panic ''nil pointer dereference''), removals, hasNewRemovals)
                 | Some desiredPVC \<Rightarrow>
                     (let (pvcHash, err) = GetJSONHash d desiredPVC in
                      if annotation_of (pvc_Annotations pvc) LastSpecKey \<noteq> pvcHash \<and> False then
                        (case GetInstances_single d instanceID of
                           Inl err' \<Rightarrow> (Some err', removals, hasNewRemovals)
                         | Inr instances \<Rightarrow>
                             (if 0 < length instances
                              then (err, removals(instanceID \<mapsto> getPendingRemovalState d (hd instances)), True)
                              else (err, removals, hasNewRemovals)))
                      else (err, removals, hasNewRemovals))))))"

text \<open>The first loop, over the volume claims.\<close>

fun claims_loop ::
  "('sp, 'rs, 'claim) replace_deps \<Rightarrow> ('sp, 'rs) fdb_cluster \<Rightarrow> volume_claim list
     \<Rightarrow> (string \<rightharpoonup> 'rs) \<Rightarrow> bool \<Rightarrow> error option \<times> (string \<rightharpoonup> 'rs) \<times> bool" where
  "claims_loop d cl [] removals hasNewRemovals = (None, removals, hasNewRemovals)"
| "claims_loop d cl (pvc # rest) removals hasNewRemovals =
     (case claim_step d cl pvc removals hasNewRemovals of
        (Some err, removals, hasNewRemovals) \<Rightarrow> (Some err, removals, hasNewRemovals)
      | (None, removals, hasNewRemovals) \<Rightarrow> claims_loop d cl rest removals hasNewRemovals)"

text \<open>
  The decision of the second loop for one instance that has a pod and is not pending
  removal: an error, or whether the instance needs removal.
\<close>

definition needs_removal ::
  "('sp, 'rs, 'claim) replace_deps \<Rightarrow> ('sp, 'rs) fdb_cluster \<Rightarrow> fdb_instance \<Rightarrow> error + bool" where
  "needs_removal d cl inst =
     (let instanceID = in_InstanceID inst in
      case ParseInstanceID_dep d instanceID of
        Inl err \<Rightarrow> Inl err
      | Inr (_, idNum) \<Rightarrow>
          (let needsRemoval = False;
               (_, desiredInstanceID) = getInstanceID_dep d (fc_Spec cl) (in_ProcessClass inst) idNum;
               needsRemoval = (if instanceID \<noteq> desiredInstanceID then True else needsRemoval) in
           if fc_UpdatePodsByReplacement cl then
             (case GetPodSpecHash d (fc_Spec cl) (in_ProcessClass inst) idNum of
                Inl err \<Rightarrow> Inl err
              | Inr specHash \<Rightarrow>
                  Inr (if annotation_of (in_Annotations inst) LastSpecKey \<noteq> specHash then True
                       else needsRemoval))
           else Inr needsRemoval))"

fun instances_loop ::
  "('sp, 'rs, 'claim) replace_deps \<Rightarrow> ('sp, 'rs) fdb_cluster \<Rightarrow> fdb_instance list
     \<Rightarrow> (string \<rightharpoonup> 'rs) \<Rightarrow> bool \<Rightarrow> error option \<times> (string \<rightharpoonup> 'rs) \<times> bool" where
  "instances_loop d cl [] removals hasNewRemovals = (None, removals, hasNewRemovals)"
| "instances_loop d cl (inst # rest) removals hasNewRemovals =
     (if \<not> in_HasPod inst then instances_loop d cl rest removals hasNewRemovals
      else
        (let instanceID = in_InstanceID inst;
             pendingRemoval = (removals instanceID \<noteq> None) in
         if pendingRemoval then instances_loop d cl rest removals hasNewRemovals
         else
           (case needs_removal d cl inst of
              Inl err \<Rightarrow> (Some err, removals, hasNewRemovals)
            | Inr needsRemoval \<Rightarrow>
                if needsRemoval then
                  instances_loop d cl rest
                    (removals(instanceID \<mapsto> getPendingRemovalState d inst)) True
                else instances_loop d cl rest removals hasNewRemovals)))"

text \<open>
  The result of a run: what \<open>Reconcile\<close> returns, the cluster object in memory, and the
  status updates sent. The local map \<open>removals\<close> is the map of the cluster object when
  that one is not nil, so that entries added to it show in the cluster object even when
  the run ends early.
\<close>

record ('sp, 'rs) replace_result =
  rr_done :: bool
  rr_err :: "error option"
  rr_cluster :: "('sp, 'rs) fdb_cluster"
  rr_updates :: "('sp, 'rs) fdb_cluster list"

definition removals_of :: "('sp, 'rs) fdb_cluster \<Rightarrow> (string \<rightharpoonup> 'rs)" where
  "removals_of cl = (case fc_PendingRemovals cl of None \<Rightarrow> Map.empty | Some m \<Rightarrow> m)"

definition shared_map :: "('sp, 'rs) fdb_cluster \<Rightarrow> (string \<rightharpoonup> 'rs) \<Rightarrow> ('sp, 'rs) fdb_cluster" where
  "shared_map cl removals =
     (case fc_PendingRemovals cl of None \<Rightarrow> cl | Some m \<Rightarrow> cl\<lparr>fc_PendingRemovals := Some removals\<rparr>)"

definition ReplaceMisconfiguredPods ::
  "('sp, 'rs, 'claim) replace_deps \<Rightarrow> ('sp, 'rs) fdb_cluster \<Rightarrow> ('sp, 'rs) replace_result" where
  "ReplaceMisconfiguredPods d cl =
     (let hasNewRemovals = False;
          removals = removals_of cl in
      case List_claims d of
        Inl err \<Rightarrow> \<lparr>rr_done = False, rr_err = Some err, rr_cluster = cl, rr_updates = []\<rparr>
      | Inr pvcs \<Rightarrow>
          (case claims_loop d cl pvcs removals hasNewRemovals of
             (Some err, removals, hasNewRemovals) \<Rightarrow>
               \<lparr>rr_done = False, rr_err = Some err, rr_cluster = shared_map cl removals, rr_updates = []\<rparr>
           | (None, removals, hasNewRemovals) \<Rightarrow>
               (case GetInstances d of
                  Inl err \<Rightarrow>
                    \<lparr>rr_done = False, rr_err = Some err, rr_cluster = shared_map cl removals,
                     rr_updates = []\<rparr>
                | Inr instances \<Rightarrow>
                    (case instances_loop d cl instances removals hasNewRemovals of
                       (Some err, removals, hasNewRemovals) \<Rightarrow>
                         \<lparr>rr_done = False, rr_err = Some err, rr_cluster = shared_map cl removals,
                          rr_updates = []\<rparr>
                     | (None, removals, hasNewRemovals) \<Rightarrow>
                         if hasNewRemovals then
                           (let cl' = cl\<lparr>fc_PendingRemovals := Some removals\<rparr> in
                            case Status_Update d cl' of
                              Some err \<Rightarrow>
                                \<lparr>rr_done = False, rr_err = Some err, rr_cluster = cl', rr_updates = [cl']\<rparr>
                            | None \<Rightarrow>
                                \<lparr>rr_done = True, rr_err = None, rr_cluster = cl', rr_updates = [cl']\<rparr>)
                         else
                           \<lparr>rr_done = True, rr_err = None, rr_cluster = shared_map cl removals,
                            rr_updates = []\<rparr>))))"

text \<open>
  The identifiers of the listed instances that have a pod and for which the decision is
  to remove.
\<close>

definition marks ::
  "('sp, 'rs, 'claim) replace_deps \<Rightarrow> ('sp, 'rs) fdb_cluster \<Rightarrow> fdb_instance list \<Rightarrow> string set" where
  "marks d cl insts =
     {in_InstanceID inst | inst. inst \<in> set insts \<and> in_HasPod inst \<and> needs_removal d cl inst = Inr True}"

section \<open>\<open>UpdateConfigMap\<close> of the \<open>controllers\<close> package\<close>

text \<open>
  A config map object with the parts of its metadata that the step reads; labels,
  annotations and data are Go maps that may be nil, and \<open>reflect.DeepEqual\<close> on two of
  them is equality.
\<close>

record config_object =
  co_Namespace :: string
  co_Name :: string
  co_Labels :: "(string \<rightharpoonup> string) option"
  co_Annotations :: "(string \<rightharpoonup> string) option"
  co_Data :: "(string \<rightharpoonup> string) option"

text \<open>
  What \<open>UpdateConfigMap.Reconcile\<close> calls and the sources do not contain: the builder of
  the desired config map, the three platform requests on config maps,
  \<open>mergeAnnotations\<close> (which changes the existing object and tells whether it did),
  \<open>GetDynamicConfHash\<close>, the listing of the instances, the push of the dynamic
  configuration to one instance and the update of an instance's metadata.
\<close>

record update_deps =
  ud_GetConfigMap :: "error + config_object"
  ud_Get :: "string \<Rightarrow> string \<Rightarrow> error + config_object"
  ud_Create :: "config_object \<Rightarrow> error option"
  ud_mergeAnnotations :: "config_object \<Rightarrow> config_object \<Rightarrow> bool \<times> config_object"
  ud_Update :: "config_object \<Rightarrow> error option"
  ud_GetDynamicConfHash :: "config_object \<Rightarrow> error + string"
  ud_GetInstances :: "error + fdb_instance list"
  ud_updatePodDynamicConf :: "fdb_instance \<Rightarrow> bool \<times> error option"
  ud_UpdateMetadata :: "fdb_instance \<Rightarrow> error option"

text \<open>What a run does to the outside, in order; instances are named by their position in the listing.\<close>

datatype sync_effect =
    ConfigMapCreated config_object
  | EventRecorded string
  | ConfigMapUpdated config_object
  | ConfPushed nat
  | MetadataUpdated nat fdb_instance

record update_result =
  ur_done :: bool
  ur_err :: "error option"
  ur_instances :: "fdb_instance list"
  ur_effects :: "sync_effect list"

text \<open>
  The statements of \<open>Reconcile\<close> before the instances are listed: either the run ends
  there, or it goes on with the hash of the config map.
\<close>

definition config_map_phase :: "update_deps \<Rightarrow> update_result + string \<times> sync_effect list" where
  "config_map_phase d =
     (case ud_GetConfigMap d of
        Inl err \<Rightarrow> Inl \<lparr>ur_done = False, ur_err = Some err, ur_instances = [], ur_effects = []\<rparr>
      | Inr configMap \<Rightarrow>
          (case ud_Get d (co_Namespace configMap) (co_Name configMap) of
             Inl err \<Rightarrow>
               if err = NotFound then
                 (let err' = ud_Create d configMap in
                  Inl \<lparr>ur_done = (err' = None), ur_err = err', ur_instances = [],
                       ur_effects = [ConfigMapCreated configMap]\<rparr>)
               else Inl \<lparr>ur_done = False, ur_err = Some err, ur_instances = [], ur_effects = []\<rparr>
           | Inr existing \<Rightarrow>
               (let metadataCorrect = True;
                    (existing, metadataCorrect) =
                       (if co_Labels existing \<noteq> co_Labels configMap
                        then (existing\<lparr>co_Labels := co_Labels configMap\<rparr>, False)
                        else (existing, metadataCorrect));
                    (merged, existing) = ud_mergeAnnotations d existing configMap;
                    metadataCorrect = (if merged then False else metadataCorrect);
                    changed = (co_Data existing \<noteq> co_Data configMap \<or> \<not> metadataCorrect);
                    existing' = existing\<lparr>co_Data := co_Data configMap\<rparr>;
                    effects = (if changed then [EventRecorded ''UpdatingConfigMap'', ConfigMapUpdated existing']
                               else [])
                in case (if changed then ud_Update d existing' else None) of
                     Some err \<Rightarrow>
                       Inl \<lparr>ur_done = False, ur_err = Some err, ur_instances = [], ur_effects = effects\<rparr>
                   | None \<Rightarrow>
                       (case ud_GetDynamicConfHash d configMap of
                          Inl err \<Rightarrow>
                            Inl \<lparr>ur_done = False, ur_err = Some err, ur_instances = [],
                                 ur_effects = effects\<rparr>
                        | Inr configMapHash \<Rightarrow> Inr (configMapHash, effects)))))"

text \<open>Storing the hash in the annotations of an instance; the map is not nil.\<close>

definition stamp :: "string \<Rightarrow> fdb_instance \<Rightarrow> fdb_instance" where
  "stamp configMapHash inst =
     inst\<lparr>in_Annotations :=
            Some ((case in_Annotations inst of None \<Rightarrow> Map.empty | Some m \<Rightarrow> m)
                    (LastConfigMapKey \<mapsto> configMapHash))\<rparr>"

text \<open>
  The loop over the instances, from position \<open>index\<close> on: the values returned, the
  instances as they are in memory afterwards, and the effects. An assignment to an entry
  of a nil map panics.
\<close>

fun sync_instances ::
  "update_deps \<Rightarrow> string \<Rightarrow> nat \<Rightarrow> fdb_instance list
     \<Rightarrow> (bool \<times> error option) \<times> fdb_instance list \<times> sync_effect list" where
  "sync_instances d configMapHash index [] = ((True, None), [], [])"
| "sync_instances d configMapHash index (inst # rest) =
     (if annotation_of (in_Annotations inst) LastConfigMapKey \<noteq> configMapHash then
        (let (synced, err) = ud_updatePodDynamicConf d inst in
         if \<not> synced then ((synced, err), inst # rest, [ConfPushed index])
         else if in_Annotations inst = None then
           ((False, Some (Panic ''assignment to entry in nil map'')), inst # rest, [ConfPushed index])
         else
           (let inst' = stamp configMapHash inst in
            case ud_UpdateMetadata d inst' of
              Some err' \<Rightarrow>
                ((False, Some err'), inst' # rest, [ConfPushed index, MetadataUpdated index inst'])
            | None \<Rightarrow>
                (let (res, rest', effects) = sync_instances d configMapHash (Suc index) rest in
                 (res, inst' # rest', [ConfPushed index, MetadataUpdated index inst'] @ effects))))
      else
        (let (res, rest', effects) = sync_instances d configMapHash (Suc index) rest in
         (res, inst # rest', effects)))"

definition UpdateConfigMap_Reconcile :: "update_deps \<Rightarrow> update_result" where
  "UpdateConfigMap_Reconcile d =
     (case config_map_phase d of
        Inl res \<Rightarrow> res
      | Inr (configMapHash, effects) \<Rightarrow>
          (case ud_GetInstances d of
             Inl err \<Rightarrow> \<lparr>ur_done = False, ur_err = Some err, ur_instances = [], ur_effects = effects\<rparr>
           | Inr instances \<Rightarrow>
               (let ((done, err), instances', effects') = sync_instances d configMapHash 0 instances in
                \<lparr>ur_done = done, ur_err = err, ur_instances = instances',
                 ur_effects = effects @ effects'\<rparr>)))"

text \<open>The effects of a loop that brings every instance up to date.\<close>

fun sync_effects :: "string \<Rightarrow> nat \<Rightarrow> fdb_instance list \<Rightarrow> sync_effect list" where
  "sync_effects configMapHash index [] = []"
| "sync_effects configMapHash index (inst # rest) =
     (if annotation_of (in_Annotations inst) LastConfigMapKey \<noteq> configMapHash
      then [ConfPushed index, MetadataUpdated index (stamp configMapHash inst)]
      else [])
     @ sync_effects configMapHash (Suc index) rest"

text \<open>The positions that an effect list touches.\<close>

fun effect_index :: "sync_effect \<Rightarrow> nat option" where
  "effect_index (ConfPushed k) = Some k"
| "effect_index (MetadataUpdated k inst) = Some k"
| "effect_index _ = None"

section \<open>Instance identifiers\<close>

text \<open>
  Modelled from the spec: \<open>InstanceID\<close>, the function that builds an instance
  identifier; the sources only hold its results in the tests (\<open>dc1-storage-1\<close> for the
  prefix \<open>dc1\<close>). The specification gives the identifier as the prefix and a dash when a
  prefix is set, then the process class, a dash and the number.
\<close>

definition InstanceID :: "string \<Rightarrow> string \<Rightarrow> nat \<Rightarrow> string" where
  "InstanceID prefix processClass n =
     (if prefix \<noteq> [] then prefix @ ''-'' @ processClass @ ''-'' @ nat_digits n
      else processClass @ ''-'' @ nat_digits n)"

text \<open>The part of a string after its last dash, and the part before that dash.\<close>

definition last_component :: "string \<Rightarrow> string" where
  "last_component s = rev (takeWhile (\<lambda>c. c \<noteq> CHR ''-'') (rev s))"

definition but_last_component :: "string \<Rightarrow> string" where
  "but_last_component s = rev (drop 1 (dropWhile (\<lambda>c. c \<noteq> CHR ''-'') (rev s)))"

definition is_digit :: "char \<Rightarrow> bool" where
  "is_digit c = (48 \<le> (of_char c :: nat) \<and> (of_char c :: nat) \<le> 57)"

definition parse_nat :: "string \<Rightarrow> nat" where
  "parse_nat s = foldl (\<lambda>a c. 10 * a + ((of_char c :: nat) - 48)) 0 s"

definition positive_integer :: "string \<Rightarrow> bool" where
  "positive_integer s = (s \<noteq> [] \<and> list_all is_digit s \<and> 0 < parse_nat s)"

datatype parse_error = MalformedIdentifier

text \<open>
  Modelled from the spec: \<open>ParseInstanceID\<close>, which the sources call and do not contain.
  The specification has it return the process class and the number, and fail with
  \<open>MalformedIdentifier\<close> if the trailing component is not a positive integer. The
  components are the parts between dashes; the process class is the component before the
  trailing one.
\<close>

definition ParseInstanceID :: "string \<Rightarrow> parse_error + string \<times> nat" where
  "ParseInstanceID ident =
     (let trailing = last_component ident in
      if positive_integer trailing
      then Inr (last_component (but_last_component ident), parse_nat trailing)
      else Inl MalformedIdentifier)"

section \<open>Override layers of the pod specification\<close>

text \<open>
  Modelled from the spec: the merge of the override layers into the containers of a pod
  specification, which belongs to a version of \<open>GetPodSpec\<close> that the sources do not
  contain (the one in \<open>foundationdbcluster_controller.go\<close> reads no override at all). The
  specification applies the layers in ascending precedence: the built-in containers, then
  the deprecated flat fields, then the global pod template, then the pod template of the
  process class. One routine merges a layer: an override container whose name matches an
  existing container merges field by field, a scalar field being overwritten if the
  override sets it and kept otherwise, environment variables and volume mounts being
  concatenated override first; an override container with a new name is appended.
\<close>

definition merge_container :: "container \<Rightarrow> container \<Rightarrow> container" where
  "merge_container base ov =
     base\<lparr>c_Image := (if c_Image ov \<noteq> [] then c_Image ov else c_Image base),
          c_Command := (if c_Command ov \<noteq> [] then c_Command ov else c_Command base),
          c_Args := (if c_Args ov \<noteq> [] then c_Args ov else c_Args base),
          c_Env := c_Env ov @ c_Env base,
          c_VolumeMounts := c_VolumeMounts ov @ c_VolumeMounts base\<rparr>"

fun apply_override :: "container list \<Rightarrow> container \<Rightarrow> container list" where
  "apply_override [] ov = [ov]"
| "apply_override (base # rest) ov =
     (if c_Name base = c_Name ov then merge_container base ov # rest
      else base # apply_override rest ov)"

definition apply_layer :: "container list \<Rightarrow> container list \<Rightarrow> container list" where
  "apply_layer containers layer = foldl apply_override containers layer"

definition layered_containers ::
  "container list \<Rightarrow> container list \<Rightarrow> container list \<Rightarrow> container list \<Rightarrow> container list" where
  "layered_containers builtin flat global perClass = foldl apply_layer builtin [flat, global, perClass]"

text \<open>The image that a list of containers gives to a container name.\<close>

definition image_of :: "container list \<Rightarrow> string \<Rightarrow> string option" where
  "image_of containers name = map_option c_Image (find (\<lambda>c. c_Name c = name) containers)"

text \<open>An override that names a container and sets nothing but its image.\<close>

definition image_override :: "string \<Rightarrow> string \<Rightarrow> container" where
  "image_override name img =
     \<lparr>c_Name = name, c_Image = img, c_Env = [], c_Command = [], c_Args = [], c_VolumeMounts = []\<rparr>"

section \<open>A concrete cluster for the worked examples\<close>

definition demo_cluster :: cluster where
  "demo_cluster =
     \<lparr>Name = ''my-cluster'', Namespace = ''my-ns'', APIVersion = ''apps.foundationdb.org/v1beta1'',
      Kind = ''FoundationDBCluster'', UID = ''uid-1'', Version = ''6.1.8'',
      ReplicationMode = [], StorageEngine = [], ConnectionString = [],
      Configured = False, NextInstanceID = 0\<rparr>"

definition demo_pod :: "string \<Rightarrow> string \<Rightarrow> pod" where
  "demo_pod name ip =
     \<lparr>p_Name = name, p_Namespace = ''my-ns'',
      p_Labels = [(''fdb-cluster-name'', ''my-cluster''), (''fdb-process-class'', ''storage'')],
      p_OwnerReferences = [],
      p_Spec = \<lparr>InitContainers = [], Containers = [], Volumes = []\<rparr>,
      p_PodIP = ip\<rparr>"

definition demo_pods :: "pod list" where
  "demo_pods = [demo_pod ''a'' ''10.0.0.1'', demo_pod ''b'' ''10.0.0.2'', demo_pod ''c'' ''10.0.0.3'']"

definition demo_reconciler :: reconciler where
  "demo_reconciler =
     \<lparr>Get_cluster = (\<lambda>h. Inr demo_cluster),
      Update_cluster = (\<lambda>h cl. None),
      Get_config_map = (\<lambda>h ns name. Inl NotFound),
      Create_config_map = (\<lambda>h cm. None),
      Update_config_map = (\<lambda>h cm. None),
      List_pods = (\<lambda>h ns labels. Inr demo_pods),
      Create_pod = (\<lambda>h p. None),
      Get_pod = (\<lambda>h ns name. Inl NotFound),
      podClientProvider = (\<lambda>h cl p. if p_PodIP p = [] then Inl NoIP else Inr (p_PodIP p)),
      adminClientProvider = (\<lambda>h cl. None),
      ConfigureDatabase = (\<lambda>h mode engine initial. None),
      UpdateDynamicFiles = (\<lambda>h client files. [None, None]),
      arrival = (\<lambda>h n. [0..<n])\<rparr>"

definition demo_deps :: deps where
  "demo_deps =
     \<lparr>DesiredProcessCount = (\<lambda>cl processClass. 5),
      DesiredCoordinatorCount = (\<lambda>cl. 3),
      marshal = (\<lambda>j. Inr ''{}''),
      DockerImageRoot = ''foundationdb''\<rparr>"

definition demo_state :: state where
  "demo_state = \<lparr>st_cluster = demo_cluster, st_hist = []\<rparr>"

text \<open>The same collaborators, with the second pod's client delivered first.\<close>

definition swapped_reconciler :: reconciler where
  "swapped_reconciler = demo_reconciler\<lparr>arrival := (\<lambda>h n. [1, 0, 2])\<rparr>"

text \<open>A platform on which only two storage pods are listed.\<close>

definition short_reconciler :: reconciler where
  "short_reconciler = demo_reconciler\<lparr>List_pods := (\<lambda>h ns labels. Inr (take 2 demo_pods))\<rparr>"

text \<open>A platform that refuses every pod creation.\<close>

definition refusing_reconciler :: reconciler where
  "refusing_reconciler = demo_reconciler\<lparr>Create_pod := (\<lambda>h p. Some (Err ''pod creation refused''))\<rparr>"

text \<open>The kind of a request, to summarise a history.\<close>

fun call_name :: "call \<Rightarrow> string" where
  "call_name ClusterGet = ''get cluster''"
| "call_name (ClusterUpdate cl) = ''update cluster''"
| "call_name (ConfigMapGet ns name) = ''get config map''"
| "call_name (ConfigMapCreate cm) = ''create config map''"
| "call_name (ConfigMapUpdate cm) = ''update config map''"
| "call_name (PodList ns labels) = ''list pods''"
| "call_name (PodCreate p) = ''create pod''"
| "call_name (PodGet ns name) = ''get pod''"
| "call_name (PodClientNew p) = ''new pod client''"
| "call_name (PodClientSpawn p) = ''spawn getPodClient''"
| "call_name (DynamicConfSpawn p) = ''spawn updatePodDynamicConf''"
| "call_name AdminClientNew = ''new admin client''"
| "call_name (DatabaseConfigure mode engine initial) = ''configure database''"

section \<open>Instances and volume claims for the worked examples\<close>

definition demo_instance :: "string \<Rightarrow> string \<Rightarrow> fdb_instance" where
  "demo_instance ident specHash =
     \<lparr>in_HasPod = True, in_InstanceID = ident, in_ProcessClass = ''storage'',
      in_Annotations = Some [LastSpecKey \<mapsto> specHash]\<rparr>"

definition demo_claim :: volume_claim where
  "demo_claim =
     \<lparr>pvc_OwnerUIDs = [''uid-1''], pvc_InstanceID = ''storage-1'', pvc_ProcessClass = ''storage'',
      pvc_Annotations = Some [LastSpecKey \<mapsto> ''old-claim-hash'']\<rparr>"

definition demo_fdb_cluster :: "(string, string) fdb_cluster" where
  "demo_fdb_cluster =
     \<lparr>fc_UID = ''uid-1'', fc_Spec = ''spec'', fc_UpdatePodsByReplacement = False,
      fc_PendingRemovals = None\<rparr>"

text \<open>
  One volume claim whose stamped hash is not the desired one, and two instances: the
  first is as desired, the second carries an identifier with a prefix that the
  specification no longer asks for.
\<close>

definition demo_replace_deps :: "(string, string, string) replace_deps" where
  "demo_replace_deps =
     \<lparr>List_claims = Inr [demo_claim],
      GetInstances = Inr [demo_instance ''storage-1'' ''pod-hash'', demo_instance ''dc1-storage-2'' ''pod-hash''],
      GetInstances_single = (\<lambda>ident. Inr [demo_instance ident ''pod-hash'']),
      ParseInstanceID_dep =
        (\<lambda>ident. if ident = ''storage-1'' then Inr (''storage'', 1)
                  else if ident = ''dc1-storage-2'' then Inr (''dc1-storage'', 2)
                  else Inl (Err ''could not parse instance ID'')),
      getInstanceID_dep =
        (\<lambda>spec processClass n. (''sample-'' @ processClass, if n = 1 then ''storage-1'' else ''storage-2'')),
      GetPodSpecHash = (\<lambda>spec processClass n. Inr ''pod-hash''),
      GetPvc = (\<lambda>spec processClass n. (Some ''claim'', None)),
      GetJSONHash = (\<lambda>claim. (''new-claim-hash'', None)),
      getPendingRemovalState = (\<lambda>inst. ''state of '' @ in_InstanceID inst),
      Status_Update = (\<lambda>cl. None)\<rparr>"

text \<open>The same, with the first instance only.\<close>

definition idle_replace_deps :: "(string, string, string) replace_deps" where
  "idle_replace_deps = demo_replace_deps\<lparr>GetInstances := Inr [demo_instance ''storage-1'' ''pod-hash'']\<rparr>"

section \<open>A config map and four instances for the worked examples\<close>

definition demo_config_object :: config_object where
  "demo_config_object =
     \<lparr>co_Namespace = ''my-ns'', co_Name = ''my-cluster-config'', co_Labels = None,
      co_Annotations = None, co_Data = Some [''cluster-file'' \<mapsto> ''my_cluster:init@10.0.0.1:4500'']\<rparr>"

definition synced_instance :: "string \<Rightarrow> string \<Rightarrow> fdb_instance" where
  "synced_instance ident confHash =
     \<lparr>in_HasPod = True, in_InstanceID = ident, in_ProcessClass = ''storage'',
      in_Annotations = Some [LastConfigMapKey \<mapsto> confHash]\<rparr>"

text \<open>
  The first instance is up to date, the three others are not, and the push to the third
  one fails.
\<close>

definition demo_update_deps :: update_deps where
  "demo_update_deps =
     \<lparr>ud_GetConfigMap = Inr demo_config_object,
      ud_Get = (\<lambda>ns name. Inr demo_config_object),
      ud_Create = (\<lambda>cm. None),
      ud_mergeAnnotations = (\<lambda>existing desired. (False, existing)),
      ud_Update = (\<lambda>cm. None),
      ud_GetDynamicConfHash = (\<lambda>cm. Inr ''hash-2''),
      ud_GetInstances =
        Inr [synced_instance ''storage-1'' ''hash-2'', synced_instance ''storage-2'' ''hash-1'',
             synced_instance ''storage-3'' ''hash-1'', synced_instance ''storage-4'' ''hash-1''],
      ud_updatePodDynamicConf =
        (\<lambda>inst. if in_InstanceID inst = ''storage-3'' then (False, Some (Err ''sidecar unreachable''))
                 else (True, None)),
      ud_UpdateMetadata = (\<lambda>inst. None)\<rparr>"

text \<open>
  The same instances, with every push succeeding and the update of the third instance's
  metadata refused.
\<close>

definition conflict_update_deps :: update_deps where
  "conflict_update_deps =
     demo_update_deps
       \<lparr>ud_updatePodDynamicConf := (\<lambda>inst. (True, None)),
        ud_UpdateMetadata :=
          (\<lambda>inst. if in_InstanceID inst = ''storage-3'' then Some (Err ''conflict'') else None)\<rparr>"

section \<open>Adding pods\<close>

lemma sint_word_of_nat_small:
  assumes "n < 2 ^ 63"
  shows "sint (word_of_nat n :: 64 word) = int n"
proof -
  have "int n < 2 ^ 63" using assms by (simp add: of_nat_less_numeral_power_cancel_iff)
  then show ?thesis
    by (simp add: signed_of_nat signed_take_bit_int_eq_self)
qed

lemma sint_sub_nat:
  fixes w :: "64 word"
  assumes "0 \<le> sint w" "n < 2 ^ 63"
  shows "sint (w - word_of_nat n) = sint w - int n"
proof -
  have n: "int n < 2 ^ 63" using assms by (simp add: of_nat_less_numeral_power_cancel_iff)
  have w: "sint w < 2 ^ 63" using sint_lt [of w] by simp
  have "sint (w - word_of_nat n) = signed_take_bit 63 (sint w - int n)"
    by (simp add: sint_word_diff sint_word_of_nat_small [OF assms(2)])
  also have "\<dots> = sint w - int n"
    using assms(1) n w by (intro signed_take_bit_int_eq_self) simp_all
  finally show ?thesis .
qed

lemma new_pods_Suc:
  "new_pods d cl pc start (Suc n) = GetPod (DockerImageRoot d) cl pc start # new_pods d cl pc (start + 1) n"
proof -
  have "[0..<Suc n] = 0 # map Suc [0..<n]"
    by (simp add: upt_conv_Cons map_Suc_upt del: upt_Suc)
  then show ?thesis
    by (simp add: new_pods_def comp_def add.assoc del: upt_Suc)
qed

lemma create_pods_ok:
  "(\<And>h' p. Create_pod r h' p = None) \<Longrightarrow>
   create_pods d r cl pc n start h
     = (Inr (start + word_of_nat n), h @ map PodCreate (new_pods d cl pc start n))"
proof (induction n arbitrary: start h)
  case 0
  then show ?case by (simp add: new_pods_def)
next
  case (Suc n)
  then show ?case by (simp add: new_pods_Suc Let_def add.assoc)
qed

lemma create_pods_hist:
  "\<exists>ext. snd (create_pods d r cl pc n start h) = h @ ext \<and> list_all is_PodCreate ext
         \<and> (0 < n \<longrightarrow> ext \<noteq> [])"
proof (induction n arbitrary: start h)
  case 0
  then show ?case by simp
next
  case (Suc n)
  show ?case
  proof (cases "Create_pod r h (GetPod (DockerImageRoot d) cl pc start)")
    case None
    from Suc.IH [of "start + 1" "h @ [PodCreate (GetPod (DockerImageRoot d) cl pc start)]"]
    obtain ext where "snd (create_pods d r cl pc n (start + 1) (h @ [PodCreate (GetPod (DockerImageRoot d) cl pc start)]))
        = (h @ [PodCreate (GetPod (DockerImageRoot d) cl pc start)]) @ ext" "list_all is_PodCreate ext"
      by blast
    with None show ?thesis by (simp add: Let_def)
  next
    case (Some e)
    then show ?thesis by (simp add: Let_def)
  qed
qed

lemma is_PodCreate_addPods_call: "list_all is_PodCreate ext \<Longrightarrow> list_all addPods_call ext"
proof (induction ext)
  case Nil then show ?case by simp
next
  case (Cons c ext)
  then show ?case by (cases c) simp_all
qed

lemma is_PodCreate_ex: "list_all is_PodCreate ext \<Longrightarrow> ext \<noteq> [] \<Longrightarrow> \<exists>p. PodCreate p \<in> set ext"
proof (cases ext)
  case Nil then show "ext \<noteq> [] \<Longrightarrow> ?thesis" by simp
next
  case (Cons c ext')
  assume "list_all is_PodCreate ext"
  with Cons have "is_PodCreate c" by simp
  then obtain p where "c = PodCreate p" by (cases c) simp_all
  with Cons show ?thesis by auto
qed

lemma addPods_frame_refl: "addPods_frame s s"
  by (simp add: addPods_frame_def)

lemma addPods_frame_trans: "addPods_frame s s1 \<Longrightarrow> addPods_frame s1 s2 \<Longrightarrow> addPods_frame s s2"
  unfolding addPods_frame_def
  apply (elim exE conjE)
  subgoal for ext1 ext2
    apply (rule exI [of _ "ext1 @ ext2"])
    apply auto
    done
  done

lemma addPods_frame_list:
  "addPods_frame s (s\<lparr>st_hist := st_hist s @ [PodList ns ls]\<rparr>)"
  by (simp add: addPods_frame_def)

lemma addPods_classes_Cons:
  "addPods_classes d r (pc # pcs) s =
     (let cl = st_cluster s; h1 = st_hist s @ [PodList (Namespace cl) (getPodLabels cl pc)] in
      case List_pods r (st_hist s) (Namespace cl) (getPodLabels cl pc) of
        Inl err \<Rightarrow> (Some err, s\<lparr>st_hist := h1\<rparr>)
      | Inr existing \<Rightarrow>
          if 0 < sint (DesiredProcessCount d cl pc - word_of_nat (length existing)) then
            (case create_pods d r cl pc
                    (nat (sint (DesiredProcessCount d cl pc - word_of_nat (length existing))))
                    (first_id cl) h1 of
               (Inl err, h2) \<Rightarrow> (Some err, s\<lparr>st_hist := h2\<rparr>)
             | (Inr ident', h2) \<Rightarrow>
                 (case Update_cluster r h2 (cl\<lparr>NextInstanceID := ident'\<rparr>) of
                    Some err \<Rightarrow>
                      (Some err, \<lparr>st_cluster = cl\<lparr>NextInstanceID := ident'\<rparr>,
                                  st_hist = h2 @ [ClusterUpdate (cl\<lparr>NextInstanceID := ident'\<rparr>)]\<rparr>)
                  | None \<Rightarrow>
                      addPods_classes d r pcs
                        \<lparr>st_cluster = cl\<lparr>NextInstanceID := ident'\<rparr>,
                         st_hist = h2 @ [ClusterUpdate (cl\<lparr>NextInstanceID := ident'\<rparr>)]\<rparr>))
          else addPods_classes d r pcs (s\<lparr>st_hist := h1\<rparr>))"
  by (simp add: Let_def first_id_def split: sum.split prod.split option.split)

lemma addPods_classes_frame:
  "addPods_classes d r pcs s = (res, s') \<Longrightarrow> addPods_frame s s'"
proof (induction pcs arbitrary: s)
  case Nil
  then show ?case by (simp add: addPods_frame_refl)
next
  case (Cons pc pcs)
  let ?cl = "st_cluster s" and ?h = "st_hist s"
  let ?lst = "PodList (Namespace ?cl) (getPodLabels ?cl pc)"
  let ?s1 = "s\<lparr>st_hist := ?h @ [?lst]\<rparr>"
  have f1: "addPods_frame s ?s1" by (rule addPods_frame_list)
  note step = Cons.prems [unfolded addPods_classes_Cons Let_def]
  show ?case
  proof (cases "List_pods r ?h (Namespace ?cl) (getPodLabels ?cl pc)")
    case (Inl err)
    with step have "s' = ?s1" by simp
    with f1 show ?thesis by simp
  next
    case lst: (Inr existing)
    let ?new = "DesiredProcessCount d ?cl pc - word_of_nat (length existing)"
    show ?thesis
    proof (cases "0 < sint ?new")
      case False
      with lst step have "addPods_classes d r pcs ?s1 = (res, s')" by simp
      from Cons.IH [OF this] f1 show ?thesis by (rule addPods_frame_trans [rotated])
    next
      case True
      let ?cp = "create_pods d r ?cl pc (nat (sint ?new)) (first_id ?cl) (?h @ [?lst])"
      obtain out h2 where cp: "?cp = (out, h2)" by (cases ?cp)
      from create_pods_hist [of d r ?cl pc "nat (sint ?new)" "first_id ?cl" "?h @ [?lst]"] True cp
      obtain ext where ext: "h2 = (?h @ [?lst]) @ ext" "list_all is_PodCreate ext" "ext \<noteq> []"
        by auto
      have call: "list_all addPods_call ext" using ext(2) by (rule is_PodCreate_addPods_call)
      obtain p where p: "PodCreate p \<in> set ext" using is_PodCreate_ex [OF ext(2,3)] by blast
      show ?thesis
      proof (cases out)
        case (Inl err)
        with lst True cp step have "s' = s\<lparr>st_hist := h2\<rparr>" by simp
        with ext call show ?thesis by (simp add: addPods_frame_def)
      next
        case (Inr ident')
        let ?cl' = "?cl\<lparr>NextInstanceID := ident'\<rparr>"
        let ?s2 = "\<lparr>st_cluster = ?cl', st_hist = h2 @ [ClusterUpdate ?cl']\<rparr>"
        have f2: "addPods_frame s ?s2"
          unfolding addPods_frame_def using ext call p
          by (intro exI [of _ "[?lst] @ ext @ [ClusterUpdate ?cl']"]) auto
        show ?thesis
        proof (cases "Update_cluster r h2 ?cl'")
          case (Some err)
          with Inr lst True cp step have "s' = ?s2" by simp
          with f2 show ?thesis by simp
        next
          case None
          with Inr lst True cp step have "addPods_classes d r pcs ?s2 = (res, s')" by simp
          from Cons.IH [OF this] f2 show ?thesis by (rule addPods_frame_trans [rotated])
        qed
      qed
    qed
  qed
qed

declare addPods_classes.simps(2) [simp del]

text \<open>
  Claim C10. \<open>addPods\<close> only creates pods. With the pods of the class listed, a
  desired count that is not negative and no more than the existing pods leads to no
  request beyond the listing, and the cluster object is untouched. When pods are missing
  and every creation succeeds, exactly (desired count - existing pods) pods are created,
  with consecutive identifiers from \<open>max(NextInstanceID, 1)\<close> on; the counter is then
  set to one past the last identifier and the cluster object is sent to the platform. In
  every run the requests are list, create and cluster update requests only, and the
  counter changes only if a pod was created.
\<close>

theorem addPods_creates_missing_pods:
  fixes d :: deps and r :: reconciler and s :: state and existing :: "pod list"
  defines "cl \<equiv> st_cluster s"
  defines "lst \<equiv> PodList (Namespace cl) (getPodLabels cl ''storage'')"
  defines "desired \<equiv> sint (DesiredProcessCount d cl ''storage'')"
  defines "n \<equiv> nat (desired - int (length existing))"
  defines "created \<equiv> new_pods d cl ''storage'' (first_id cl) n"
  defines "cl' \<equiv> cl\<lparr>NextInstanceID := first_id cl + word_of_nat n\<rparr>"
  assumes listed: "List_pods r (st_hist s) (Namespace cl) (getPodLabels cl ''storage'') = Inr existing"
    and nonneg: "0 \<le> desired"
    and len: "length existing < 2 ^ 63"
  shows "(desired \<le> int (length existing) \<longrightarrow>
            addPods d r s = Some (None, s\<lparr>st_hist := st_hist s @ [lst]\<rparr>))
       \<and> (int (length existing) < desired \<and> (\<forall>h p. Create_pod r h p = None) \<longrightarrow>
            length created = n \<and> 0 < n \<and>
            addPods d r s =
              Some (Update_cluster r (st_hist s @ [lst] @ map PodCreate created) cl',
                    \<lparr>st_cluster = cl',
                     st_hist = st_hist s @ [lst] @ map PodCreate created @ [ClusterUpdate cl']\<rparr>))
       \<and> (\<forall>res s'. addPods d r s = Some (res, s') \<longrightarrow> addPods_frame s s')"
proof (intro conjI impI allI)
  have new: "sint (DesiredProcessCount d cl ''storage'' - word_of_nat (length existing))
               = desired - int (length existing)"
    using nonneg len unfolding desired_def by (rule sint_sub_nat)
  {
    assume "desired \<le> int (length existing)"
    with new listed show "addPods d r s = Some (None, s\<lparr>st_hist := st_hist s @ [lst]\<rparr>)"
      by (simp add: addPods_def processClasses_def addPods_classes_Cons cl_def lst_def Let_def)
  }
  {
    assume a: "int (length existing) < desired \<and> (\<forall>h p. Create_pod r h p = None)"
    show "length created = n" by (simp add: created_def new_pods_def)
    from a show "0 < n" by (simp add: n_def)
    from a have ok: "\<And>h p. Create_pod r h p = None" by simp
    from a new listed create_pods_ok [of r d cl "''storage''" n "first_id cl", OF ok]
    show "addPods d r s =
              Some (Update_cluster r (st_hist s @ [lst] @ map PodCreate created) cl',
                    \<lparr>st_cluster = cl',
                     st_hist = st_hist s @ [lst] @ map PodCreate created @ [ClusterUpdate cl']\<rparr>)"
      by (simp add: addPods_def processClasses_def addPods_classes_Cons cl_def [symmetric]
            lst_def [symmetric] n_def [symmetric] created_def [symmetric] cl'_def [symmetric] Let_def
            split: option.split)
  }
  {
    fix res s'
    assume "addPods d r s = Some (res, s')"
    then show "addPods_frame s s'"
      by (auto simp: addPods_def dest: addPods_classes_frame)
  }
qed

lemma digit_char_simps:
  "digit_char 0 = CHR ''0''" "digit_char 1 = CHR ''1''" "digit_char 2 = CHR ''2''"
  "digit_char 3 = CHR ''3''" "digit_char 4 = CHR ''4''" "digit_char 5 = CHR ''5''"
  "digit_char 6 = CHR ''6''" "digit_char 7 = CHR ''7''" "digit_char 8 = CHR ''8''"
  "digit_char 9 = CHR ''9''"
  by code_simp+

lemma nat_digits_small: "n < 10 \<Longrightarrow> nat_digits n = [digit_char n]"
  by (simp add: nat_digits.simps)

theorem addPods_creates_missing_pods_witness:
  "\<exists>s'. addPods demo_deps demo_reconciler demo_state = Some (None, s')
        \<and> NextInstanceID (st_cluster s') = 3
        \<and> map p_Name (new_pods demo_deps demo_cluster ''storage'' 1 2) = [''my-cluster-1'', ''my-cluster-2'']
        \<and> st_hist s' = [PodList ''my-ns'' [(''fdb-cluster-name'', ''my-cluster''), (''fdb-process-class'', ''storage'')]]
             @ map PodCreate (new_pods demo_deps demo_cluster ''storage'' 1 2)
             @ [ClusterUpdate (demo_cluster\<lparr>NextInstanceID := 3\<rparr>)]"
proof -
  have l: "List_pods demo_reconciler (st_hist demo_state) (Namespace (st_cluster demo_state))
             (getPodLabels (st_cluster demo_state) ''storage'') = Inr demo_pods"
    by (simp add: demo_reconciler_def)
  have nn: "0 \<le> sint (DesiredProcessCount demo_deps (st_cluster demo_state) ''storage'')"
    by (simp add: demo_deps_def)
  have len: "length demo_pods < 2 ^ 63" by (simp add: demo_pods_def)
  have names: "map p_Name (new_pods demo_deps demo_cluster ''storage'' 1 2) = [''my-cluster-1'', ''my-cluster-2'']"
    by code_simp
  from addPods_creates_missing_pods [OF l nn len] names
  show ?thesis
    by (simp add: demo_deps_def demo_reconciler_def demo_state_def demo_pods_def first_id_def
          getPodLabels_def demo_cluster_def)
qed

section \<open>Coordinator bootstrap\<close>

lemma receive_clients_all:
  "length ips = n \<Longrightarrow> 0 < n \<Longrightarrow>
   receive_clients n i (map (\<lambda>ip. Some (Inr ip)) ips) conn
     = Some (Inr (conn @ (if i = 0 then ''@'' else '','') @ Join (map (\<lambda>ip. ip @ '':4500'') ips) '',''))"
proof (induction ips arbitrary: n i conn)
  case Nil
  then show ?case by simp
next
  case (Cons ip ips)
  then obtain n' where n: "n = Suc n'" "length ips = n'" by (cases n) auto
  show ?case
  proof (cases ips)
    case Nil
    with n show ?thesis by simp
  next
    case (Cons ip' ips')
    with n have "0 < n'" by auto
    from Cons.IH [OF n(2) this, of "Suc i"] n Cons show ?thesis by simp
  qed
qed

lemma sanitize_chars: "\<forall>c \<in> set (sanitize s). name_char c"
proof (induction s rule: sanitize.induct)
  case 1
  then show ?case by simp
next
  case (2 c cs)
  have u: "name_char CHR ''_''" by (simp add: name_char_def)
  from 2 u show ?case by (auto simp: sanitize.simps(2))
qed

lemma sanitize_ascii:
  "\<forall>c \<in> set s. (of_char c :: nat) < 128 \<Longrightarrow>
   sanitize s = map (\<lambda>c. if name_char c then c else CHR ''_'') s"
  by (induction s) (simp_all add: sanitize.simps(2))

text \<open>
  Claim C6. With an empty connection string and fewer storage pods listed than the
  desired number of coordinators, \<open>generateInitialClusterFile\<close> returns an error, the
  cluster object in memory is unchanged (its connection string stays empty), and the only
  request made is the listing: nothing is sent to the platform.
\<close>

theorem generateInitialClusterFile_insufficient:
  assumes "ConnectionString (st_cluster s) = []"
    and "List_pods r (st_hist s) (Namespace (st_cluster s)) (getPodLabels (st_cluster s) ''storage'') = Inr pods"
    and "int (length pods) < DesiredCoordinatorCount d (st_cluster s)"
  shows "\<exists>err s'. generateInitialClusterFile d r s = Some (Some err, s')
           \<and> st_cluster s' = st_cluster s \<and> ConnectionString (st_cluster s') = []
           \<and> st_hist s' = st_hist s @ [PodList (Namespace (st_cluster s)) (getPodLabels (st_cluster s) ''storage'')]"
  using assms by (simp add: generateInitialClusterFile_def Let_def)

theorem generateInitialClusterFile_insufficient_witness:
  "\<exists>err s'. generateInitialClusterFile demo_deps short_reconciler demo_state = Some (Some err, s')
           \<and> st_cluster s' = demo_cluster \<and> ConnectionString (st_cluster s') = []
           \<and> st_hist s' = [PodList ''my-ns'' [(''fdb-cluster-name'', ''my-cluster''), (''fdb-process-class'', ''storage'')]]"
proof -
  have a: "ConnectionString (st_cluster demo_state) = []"
    by (simp add: demo_state_def demo_cluster_def)
  have b: "List_pods short_reconciler (st_hist demo_state) (Namespace (st_cluster demo_state))
             (getPodLabels (st_cluster demo_state) ''storage'') = Inr (take 2 demo_pods)"
    by (simp add: short_reconciler_def demo_reconciler_def)
  have c: "int (length (take 2 demo_pods)) < DesiredCoordinatorCount demo_deps (st_cluster demo_state)"
    by (simp add: demo_pods_def demo_deps_def)
  from generateInitialClusterFile_insufficient [OF a b c]
  show ?thesis
    by (simp add: demo_state_def demo_cluster_def getPodLabels_def)
qed

lemma getPodClient_ready:
  "podClientProvider r h cl pod = Inr ip \<Longrightarrow> getPodClient r h cl pod = Some (Inr ip)"
  by (subst getPodClient.simps) simp

lemma updateConfigMap_cluster:
  "updateConfigMap d r s = Some (res, s') \<Longrightarrow> st_cluster s' = st_cluster s"
  by (auto simp: updateConfigMap_def Let_def split: sum.splits if_splits option.splits)

lemma bootstrap_result:
  fixes d :: deps and r :: reconciler and s :: state and pods :: "pod list" and ips :: "string list"
  defines "cl \<equiv> st_cluster s"
  defines "h1 \<equiv> st_hist s @ [PodList (Namespace cl) (getPodLabels cl ''storage'')]"
  defines "n \<equiv> nat (DesiredCoordinatorCount d cl)"
  defines "cl' \<equiv> cl\<lparr>ConnectionString :=
                     sanitize (Name cl) @ '':init@''
                       @ Join (map (\<lambda>j. ips ! j @ '':4500'') (arrival r h1 n)) '',''\<rparr>"
  defines "s' \<equiv> \<lparr>st_cluster = cl',
                  st_hist = h1 @ map PodClientSpawn (take n pods) @ [ClusterUpdate cl']\<rparr>"
  assumes empty: "ConnectionString cl = []"
    and listed: "List_pods r (st_hist s) (Namespace cl) (getPodLabels cl ''storage'') = Inr pods"
    and pos: "0 < DesiredCoordinatorCount d cl"
    and enough: "DesiredCoordinatorCount d cl \<le> int (length pods)"
    and dist: "distinct (arrival r h1 n)" and perm: "set (arrival r h1 n) = {0..<n}"
    and clients: "\<forall>j<n. getPodClient r h1 cl (pods ! j) = Some (Inr (ips ! j))"
  shows "generateInitialClusterFile d r s =
           (case Update_cluster r (h1 @ map PodClientSpawn (take n pods)) cl' of
              Some err \<Rightarrow> Some (Some err, s')
            | None \<Rightarrow> updateConfigMap d r s')"
proof -
  let ?order = "arrival r h1 n"
  have npos: "0 < n" using pos by (simp add: n_def)
  have len: "length ?order = n"
    using distinct_card [OF dist] perm by simp
  have eq: "map (\<lambda>j. if j < n then getPodClient r h1 cl (pods ! j) else None) ?order
          = map (\<lambda>ip. Some (Inr ip)) (map (\<lambda>j. ips ! j) ?order)"
    using perm clients by (auto simp: map_eq_conv)
  have recv: "receive_clients n 0
           (map (\<lambda>j. if j < n then getPodClient r h1 cl (pods ! j) else None) ?order)
           (sanitize (Name cl) @ '':init'')
         = Some (Inr (sanitize (Name cl) @ '':init@'' @ Join (map (\<lambda>j. ips ! j @ '':4500'') ?order) '',''))"
    unfolding eq
    using receive_clients_all [of "map (\<lambda>j. ips ! j) ?order" n 0 "sanitize (Name cl) @ '':init''"] len npos
    by (simp add: comp_def)
  from pos enough have guards:
    "\<not> int (length pods) < DesiredCoordinatorCount d cl" "\<not> DesiredCoordinatorCount d cl < 0"
    by simp_all
  show ?thesis
    using empty listed guards recv
    unfolding generateInitialClusterFile_def Let_def cl_def h1_def n_def cl'_def s'_def
    by (simp split: option.split)
qed

text \<open>
  Claim C2, as amended. With an empty connection string, the storage pods listed, a
  positive desired coordinator count that the listing covers, and a client delivered for
  each of the first N pods, \<open>generateInitialClusterFile\<close> builds
  the sanitized name, then \<open>:init\<close>, then an at sign, then the addresses separated by
  commas, each address being a client's IP followed by \<open>:4500\<close>, in the order in which
  the clients are delivered; it stores the string in
  the cluster object, sends the object to the platform and goes on with \<open>updateConfigMap\<close>.
  The sanitized name has characters of \<open>[A-Za-z0-9_]\<close> only, and for an ASCII name it is
  the name with every other character replaced by an underscore. With a connection string
  that is not empty the step does nothing.
\<close>

theorem generateInitialClusterFile_connection_string:
  fixes d :: deps and r :: reconciler and s :: state and pods :: "pod list" and ips :: "string list"
  defines "cl \<equiv> st_cluster s"
  defines "h1 \<equiv> st_hist s @ [PodList (Namespace cl) (getPodLabels cl ''storage'')]"
  defines "n \<equiv> nat (DesiredCoordinatorCount d cl)"
  defines "cl' \<equiv> cl\<lparr>ConnectionString :=
                     sanitize (Name cl) @ '':init@''
                       @ Join (map (\<lambda>j. ips ! j @ '':4500'') (arrival r h1 n)) '',''\<rparr>"
  defines "s' \<equiv> \<lparr>st_cluster = cl',
                  st_hist = h1 @ map PodClientSpawn (take n pods) @ [ClusterUpdate cl']\<rparr>"
  shows "(ConnectionString cl = []
          \<and> List_pods r (st_hist s) (Namespace cl) (getPodLabels cl ''storage'') = Inr pods
          \<and> 0 < DesiredCoordinatorCount d cl \<and> DesiredCoordinatorCount d cl \<le> int (length pods)
          \<and> distinct (arrival r h1 n) \<and> set (arrival r h1 n) = {0..<n}
          \<and> (\<forall>j<n. getPodClient r h1 cl (pods ! j) = Some (Inr (ips ! j)))
          \<longrightarrow> generateInitialClusterFile d r s =
                (case Update_cluster r (h1 @ map PodClientSpawn (take n pods)) cl' of
                   Some err \<Rightarrow> Some (Some err, s')
                 | None \<Rightarrow> updateConfigMap d r s')
              \<and> (\<forall>c \<in> set (sanitize (Name cl)). name_char c)
              \<and> ((\<forall>c \<in> set (Name cl). (of_char c :: nat) < 128) \<longrightarrow>
                   sanitize (Name cl) = map (\<lambda>c. if name_char c then c else CHR ''_'') (Name cl)))
       \<and> (ConnectionString cl \<noteq> [] \<longrightarrow> generateInitialClusterFile d r s = Some (None, s))"
proof (intro conjI impI; (elim conjE)?)
  show "\<forall>c \<in> set (sanitize (Name cl)). name_char c" by (rule sanitize_chars)
next
  assume "\<forall>c \<in> set (Name cl). (of_char c :: nat) < 128"
  then show "sanitize (Name cl) = map (\<lambda>c. if name_char c then c else CHR ''_'') (Name cl)"
    by (rule sanitize_ascii)
next
  assume "ConnectionString cl \<noteq> []"
  then show "generateInitialClusterFile d r s = Some (None, s)"
    by (simp add: generateInitialClusterFile_def cl_def)
next
  assume "ConnectionString cl = []"
    and "List_pods r (st_hist s) (Namespace cl) (getPodLabels cl ''storage'') = Inr pods"
    and "0 < DesiredCoordinatorCount d cl"
    and "DesiredCoordinatorCount d cl \<le> int (length pods)"
    and "distinct (arrival r h1 n)" and "set (arrival r h1 n) = {0..<n}"
    and "\<forall>j<n. getPodClient r h1 cl (pods ! j) = Some (Inr (ips ! j))"
  then show "generateInitialClusterFile d r s =
          (case Update_cluster r (h1 @ map PodClientSpawn (take n pods)) cl' of
             Some err \<Rightarrow> Some (Some err, s')
           | None \<Rightarrow> updateConfigMap d r s')"
    unfolding cl_def h1_def n_def cl'_def s'_def by (rule bootstrap_result)
qed

lemma demo_clients_ready:
  "arrival r = arrival demo_reconciler \<or> arrival r = arrival swapped_reconciler \<Longrightarrow>
   podClientProvider r = podClientProvider demo_reconciler \<Longrightarrow>
   \<forall>j<3. getPodClient r h demo_cluster (demo_pods ! j)
             = Some (Inr ([''10.0.0.1'', ''10.0.0.2'', ''10.0.0.3''] ! j))"
proof (intro allI impI)
  fix j :: nat
  assume p: "podClientProvider r = podClientProvider demo_reconciler" and "j < 3"
  then have "j = 0 \<or> j = 1 \<or> j = 2" by auto
  then show "getPodClient r h demo_cluster (demo_pods ! j)
                = Some (Inr ([''10.0.0.1'', ''10.0.0.2'', ''10.0.0.3''] ! j))"
    using p by (auto intro!: getPodClient_ready simp: demo_reconciler_def demo_pods_def demo_pod_def)
qed

lemma sanitize_demo: "sanitize ''my-cluster'' = ''my_cluster''"
  by (simp add: sanitize.simps(2) name_char_def)

lemma updateConfigMap_demo:
  "Get_config_map r = Get_config_map demo_reconciler \<Longrightarrow>
   \<exists>res s'. updateConfigMap demo_deps r s = Some (res, s')"
  by (simp add: updateConfigMap_def GetConfigMap_def demo_deps_def demo_reconciler_def Let_def)

text \<open>
  The literal scenario: three storage pods with the addresses 10.0.0.1, 10.0.0.2 and
  10.0.0.3, the cluster name \<open>my-cluster\<close>, and clients delivered in listing order.
\<close>

theorem generateInitialClusterFile_connection_string_witness:
  "result_connection_string
      (generateInitialClusterFile demo_deps demo_reconciler demo_state)
     = Some ''my_cluster:init@10.0.0.1:4500,10.0.0.2:4500,10.0.0.3:4500''"
proof -
  let ?h1 = "[PodList ''my-ns'' [(''fdb-cluster-name'', ''my-cluster''), (''fdb-process-class'', ''storage'')]]"
  let ?cl' = "demo_cluster\<lparr>ConnectionString := ''my_cluster:init@10.0.0.1:4500,10.0.0.2:4500,10.0.0.3:4500''\<rparr>"
  let ?s' = "\<lparr>st_cluster = ?cl', st_hist = ?h1 @ map PodClientSpawn (take 3 demo_pods) @ [ClusterUpdate ?cl']\<rparr>"
  have upt: "[0..<3] = [0, 1, 2]" by (simp add: upt_rec)
  have set3: "{0..<3::nat} = {0, Suc 0, 2}" by auto
  from generateInitialClusterFile_connection_string
         [where d = demo_deps and r = demo_reconciler and s = demo_state and pods = demo_pods
            and ips = "[''10.0.0.1'', ''10.0.0.2'', ''10.0.0.3'']"]
       demo_clients_ready [of demo_reconciler ?h1] upt set3 sanitize_demo
  have "generateInitialClusterFile demo_deps demo_reconciler demo_state
          = updateConfigMap demo_deps demo_reconciler ?s'"
    by (simp add: demo_state_def demo_deps_def demo_reconciler_def getPodLabels_def demo_cluster_def
          demo_pods_def)
  moreover obtain res s' where "updateConfigMap demo_deps demo_reconciler ?s' = Some (res, s')"
    using updateConfigMap_demo [of demo_reconciler ?s'] by blast
  ultimately show ?thesis
    unfolding result_connection_string_def using updateConfigMap_cluster by fastforce
qed

lemma swapped_connection_string:
  "result_connection_string
      (generateInitialClusterFile demo_deps swapped_reconciler demo_state)
     = Some ''my_cluster:init@10.0.0.2:4500,10.0.0.1:4500,10.0.0.3:4500''"
proof -
  let ?h1 = "[PodList ''my-ns'' [(''fdb-cluster-name'', ''my-cluster''), (''fdb-process-class'', ''storage'')]]"
  let ?cl' = "demo_cluster\<lparr>ConnectionString := ''my_cluster:init@10.0.0.2:4500,10.0.0.1:4500,10.0.0.3:4500''\<rparr>"
  let ?s' = "\<lparr>st_cluster = ?cl', st_hist = ?h1 @ map PodClientSpawn (take 3 demo_pods) @ [ClusterUpdate ?cl']\<rparr>"
  have set3: "{0..<3::nat} = {Suc 0, 0, 2}" by auto
  from bootstrap_result
         [where d = demo_deps and r = swapped_reconciler and s = demo_state and pods = demo_pods
            and ips = "[''10.0.0.1'', ''10.0.0.2'', ''10.0.0.3'']"]
       demo_clients_ready [of swapped_reconciler ?h1] set3 sanitize_demo
  have "generateInitialClusterFile demo_deps swapped_reconciler demo_state
          = updateConfigMap demo_deps swapped_reconciler ?s'"
    by (simp add: demo_state_def demo_deps_def swapped_reconciler_def demo_reconciler_def
          getPodLabels_def demo_cluster_def demo_pods_def)
  moreover obtain res s' where "updateConfigMap demo_deps swapped_reconciler ?s' = Some (res, s')"
    using updateConfigMap_demo [of swapped_reconciler ?s']
    by (auto simp: swapped_reconciler_def)
  ultimately show ?thesis
    unfolding result_connection_string_def using updateConfigMap_cluster by fastforce
qed


text \<open>
  Claim C2 as stated fails when the goroutine of the second pod delivers its client
  first: the pods and the cluster name are those of the literal scenario, and the
  connection string starts with the second pod's address.
\<close>

theorem generateInitialClusterFile_order_counterexample:
  "result_connection_string
      (generateInitialClusterFile demo_deps swapped_reconciler demo_state)
     \<noteq> Some ''my_cluster:init@10.0.0.1:4500,10.0.0.2:4500,10.0.0.3:4500''"
  by (simp add: swapped_connection_string)

section \<open>The reconcile pass\<close>

lemma run_steps_abort:
  "run_steps before s = Some (None, s1) \<Longrightarrow> step s1 = Some (Some err, s2) \<Longrightarrow>
   run_steps (before @ step # later) s = Some (Some err, s2)"
proof (induction before arbitrary: s)
  case Nil
  then show ?case by simp
next
  case (Cons f fs)
  then show ?case by (auto split: option.splits prod.splits)
qed

lemma Reconcile_run_steps:
  "Get_cluster r h = Inr cluster \<Longrightarrow>
   Reconcile d r h =
     map_option (\<lambda>(res, s). (res, Some s))
       (run_steps [setDefaultValues r, updateConfigMap d r, addPods d r,
                   generateInitialClusterFile d r, updateDatabaseConfiguration r]
          \<lparr>st_cluster = cluster, st_hist = h @ [ClusterGet]\<rparr>)"
  by (simp add: Reconcile_def split: option.splits prod.splits)

text \<open>
  Claim C8. Once the cluster object is fetched, \<open>Reconcile\<close> is the pipeline of
  \<open>setDefaultValues\<close>, \<open>updateConfigMap\<close>, \<open>addPods\<close>, \<open>generateInitialClusterFile\<close>
  and \<open>updateDatabaseConfiguration\<close>, in this order. In a pipeline, when the steps before
  some step succeed and that step returns an error, the pass returns this error with the
  state that the step left, whatever the later steps are: they are not run and nothing is
  undone. A cluster object that cannot be fetched ends the pass before any step.
\<close>

theorem Reconcile_fixed_order:
  "(Get_cluster r h = Inr cluster \<longrightarrow>
      Reconcile d r h =
        map_option (\<lambda>(res, s). (res, Some s))
          (run_steps [setDefaultValues r, updateConfigMap d r, addPods d r,
                      generateInitialClusterFile d r, updateDatabaseConfiguration r]
             \<lparr>st_cluster = cluster, st_hist = h @ [ClusterGet]\<rparr>))
   \<and> (run_steps before s = Some (None, s1) \<and> step s1 = Some (Some err, s2) \<longrightarrow>
        run_steps (before @ step # later) s = Some (Some err, s2))
   \<and> (Get_cluster r h = Inl err \<longrightarrow>
        Reconcile d r h = Some (if err = NotFound then None else Some err, None))"
  using Reconcile_run_steps [of r h cluster d] run_steps_abort [of before s s1 step err s2 later]
  by (auto simp: Reconcile_def)

lemma refusing_prefix:
  "\<exists>s1. run_steps [setDefaultValues refusing_reconciler, updateConfigMap demo_deps refusing_reconciler]
            \<lparr>st_cluster = demo_cluster, st_hist = [ClusterGet]\<rparr> = Some (None, s1)
        \<and> st_cluster s1 = demo_cluster
        \<and> map call_name (st_hist s1)
            = [''get cluster'', ''update cluster'', ''get cluster'', ''get config map'', ''create config map'']"
  by (simp add: setDefaultValues_def updateConfigMap_def GetConfigMap_def refusing_reconciler_def
        demo_reconciler_def demo_deps_def demo_cluster_def Let_def)

lemma refusing_addPods:
  "st_cluster s1 = demo_cluster \<Longrightarrow>
   \<exists>s2. addPods demo_deps refusing_reconciler s1 = Some (Some (Err ''pod creation refused''), s2)
        \<and> map call_name (st_hist s2) = map call_name (st_hist s1) @ [''list pods'', ''create pod'']"
proof -
  assume c: "st_cluster s1 = demo_cluster"
  have n: "nat (sint (5 - word_of_nat (length demo_pods) :: 64 word)) = Suc (Suc 0)"
    by (simp add: demo_pods_def)
  have p: "0 < sint (5 - word_of_nat (length demo_pods) :: 64 word)"
    by (simp add: demo_pods_def)
  show ?thesis
    using c n p
    by (simp add: addPods_def processClasses_def addPods_classes_Cons Let_def
          refusing_reconciler_def demo_reconciler_def demo_deps_def)
qed

text \<open>
  A pass on a platform that refuses pod creations: \<open>addPods\<close> fails, the pass returns
  its error, the two later steps make no request, and the requests of the first two steps
  stand.
\<close>

theorem Reconcile_fixed_order_witness:
  "\<exists>s2. Reconcile demo_deps refusing_reconciler [] = Some (Some (Err ''pod creation refused''), Some s2)
        \<and> map call_name (st_hist s2)
            = [''get cluster'', ''update cluster'', ''get cluster'', ''get config map'',
               ''create config map'', ''list pods'', ''create pod'']"
proof -
  let ?d = demo_deps and ?r = refusing_reconciler
  obtain s1 where s1: "run_steps [setDefaultValues ?r, updateConfigMap ?d ?r]
            \<lparr>st_cluster = demo_cluster, st_hist = [ClusterGet]\<rparr> = Some (None, s1)"
      "st_cluster s1 = demo_cluster"
      "map call_name (st_hist s1)
            = [''get cluster'', ''update cluster'', ''get cluster'', ''get config map'', ''create config map'']"
    using refusing_prefix by (elim exE conjE) (rule that, assumption+)
  obtain s2 where s2: "addPods ?d ?r s1 = Some (Some (Err ''pod creation refused''), s2)"
      "map call_name (st_hist s2) = map call_name (st_hist s1) @ [''list pods'', ''create pod'']"
    using refusing_addPods [OF s1(2)] by (elim exE conjE) (rule that, assumption+)
  have g: "Get_cluster ?r [] = Inr demo_cluster"
    by (simp add: refusing_reconciler_def demo_reconciler_def)
  note T = Reconcile_fixed_order
         [of ?r "[]" demo_cluster ?d "[setDefaultValues ?r, updateConfigMap ?d ?r]"
             "\<lparr>st_cluster = demo_cluster, st_hist = [ClusterGet]\<rparr>" s1 "addPods ?d ?r"
             "Err ''pod creation refused''" s2
             "[generateInitialClusterFile ?d ?r, updateDatabaseConfiguration ?r]"]
  have A: "Reconcile ?d ?r [] =
        map_option (\<lambda>(res, s). (res, Some s))
          (run_steps [setDefaultValues ?r, updateConfigMap ?d ?r, addPods ?d ?r,
                      generateInitialClusterFile ?d ?r, updateDatabaseConfiguration ?r]
             \<lparr>st_cluster = demo_cluster, st_hist = [] @ [ClusterGet]\<rparr>)"
    by (rule T [THEN conjunct1, THEN mp, OF g])
  have B: "run_steps ([setDefaultValues ?r, updateConfigMap ?d ?r] @ addPods ?d ?r
                        # [generateInitialClusterFile ?d ?r, updateDatabaseConfiguration ?r])
             \<lparr>st_cluster = demo_cluster, st_hist = [ClusterGet]\<rparr>
           = Some (Some (Err ''pod creation refused''), s2)"
    by (rule T [THEN conjunct2, THEN conjunct1, THEN mp, OF conjI [OF s1(1) s2(1)]])
  have C: "Reconcile ?d ?r [] = Some (Some (Err ''pod creation refused''), Some s2)"
    using B unfolding A by (simp only: append.simps option.map prod.case)
  have D: "map call_name (st_hist s2)
            = [''get cluster'', ''update cluster'', ''get cluster'', ''get config map'',
               ''create config map'', ''list pods'', ''create pod'']"
    unfolding s2(2) s1(3) by (simp only: append.simps)
  from C D show ?thesis by (intro exI [of _ s2] conjI)
qed

section \<open>Determinism of the builders\<close>

text \<open>
  Claim C9. \<open>GetPodSpec\<close> and \<open>GetConfigMap\<close> are functions of their arguments, of the
  package variable \<open>DockerImageRoot\<close> and of the JSON encoder, and of nothing else. Two
  clusters that agree on name and version get the same pod specification, whatever their
  other fields are; the containers, their environment variables and the volumes come in one
  fixed order. Two clusters that agree on name, version and connection string get the same
  config map data, with the keys in one fixed order. Every function of these values, such
  as a content hash, then agrees as well.
\<close>

theorem builders_deterministic:
  "(Name c1 = Name c2 \<and> Version c1 = Version c2 \<longrightarrow>
      GetPodSpec root c1 processClass = GetPodSpec root c2 processClass
      \<and> hash (GetPodSpec root c1 processClass) = hash (GetPodSpec root c2 processClass))
   \<and> map c_Name (InitContainers (GetPodSpec root c1 processClass)) = [''foundationdb-kubernetes-init'']
   \<and> map c_Name (Containers (GetPodSpec root c1 processClass))
        = [''foundationdb'', ''foundationdb-kubernetes-sidecar'']
   \<and> map (map fst \<circ> c_Env) (InitContainers (GetPodSpec root c1 processClass)
                                 @ Containers (GetPodSpec root c1 processClass))
        = [[''COPY_ONCE'', ''SIDECAR_CONF_DIR''], [''FDB_CLUSTER_FILE''], [''SIDECAR_CONF_DIR'']]
   \<and> map v_Name (Volumes (GetPodSpec root c1 processClass))
        = [''data'', ''dynamic-conf'', ''config-map'', ''fdb-trace-logs'']
   \<and> (Name c1 = Name c2 \<and> Version c1 = Version c2 \<and> ConnectionString c1 = ConnectionString c2 \<longrightarrow>
        map_sum id cm_Data (GetConfigMap encode c1) = map_sum id cm_Data (GetConfigMap encode c2)
        \<and> map_sum id (hash' \<circ> cm_Data) (GetConfigMap encode c1)
            = map_sum id (hash' \<circ> cm_Data) (GetConfigMap encode c2))
   \<and> (\<forall>cm. GetConfigMap encode c1 = Inr cm \<longrightarrow>
          map fst (cm_Data cm) = [''cluster-file'', ''fdbmonitor-conf-storage'', ''sidecar-conf''])"
proof (intro conjI impI allI)
  fix cm assume "GetConfigMap encode c1 = Inr cm"
  then show "map fst (cm_Data cm) = [''cluster-file'', ''fdbmonitor-conf-storage'', ''sidecar-conf'']"
    by (auto simp: GetConfigMap_def processClasses_def Let_def split: sum.splits)
next
  assume a: "Name c1 = Name c2 \<and> Version c1 = Version c2 \<and> ConnectionString c1 = ConnectionString c2"
  then have m: "GetMonitorConf c1 ''storage'' = GetMonitorConf c2 ''storage''"
    by (simp add: GetMonitorConf_def)
  with a show d: "map_sum id cm_Data (GetConfigMap encode c1) = map_sum id cm_Data (GetConfigMap encode c2)"
    by (simp add: GetConfigMap_def processClasses_def Let_def split: sum.splits)
  have "map_sum id (hash' \<circ> cm_Data) (GetConfigMap encode c1)
          = map_sum id hash' (map_sum id cm_Data (GetConfigMap encode c1))"
    by (simp add: sum.map_comp)
  also have "\<dots> = map_sum id hash' (map_sum id cm_Data (GetConfigMap encode c2))"
    by (simp only: d)
  also have "\<dots> = map_sum id (hash' \<circ> cm_Data) (GetConfigMap encode c2)"
    by (simp add: sum.map_comp)
  finally show "map_sum id (hash' \<circ> cm_Data) (GetConfigMap encode c1)
            = map_sum id (hash' \<circ> cm_Data) (GetConfigMap encode c2)" .
next
  assume a: "Name c1 = Name c2 \<and> Version c1 = Version c2"
  then show e: "GetPodSpec root c1 processClass = GetPodSpec root c2 processClass"
    by (simp add: GetPodSpec_def initContainer_def mainContainer_def sidecarContainer_def)
  then show "hash (GetPodSpec root c1 processClass) = hash (GetPodSpec root c2 processClass)"
    by (simp only:)
qed (simp_all add: GetPodSpec_def initContainer_def mainContainer_def sidecarContainer_def)

theorem builders_deterministic_witness:
  "GetPodSpec ''foundationdb'' demo_cluster ''storage''
     = GetPodSpec ''foundationdb'' (demo_cluster\<lparr>Configured := True, NextInstanceID := 7\<rparr>) ''storage''
   \<and> map_sum id cm_Data (GetConfigMap (marshal demo_deps) demo_cluster)
     = map_sum id cm_Data (GetConfigMap (marshal demo_deps) (demo_cluster\<lparr>Configured := True, NextInstanceID := 7\<rparr>))
   \<and> map_sum id (map fst \<circ> cm_Data) (GetConfigMap (marshal demo_deps) demo_cluster)
     = Inr [''cluster-file'', ''fdbmonitor-conf-storage'', ''sidecar-conf'']"
proof -
  note T = builders_deterministic
    [of demo_cluster "demo_cluster\<lparr>Configured := True, NextInstanceID := 7\<rparr>" "''foundationdb''"
        "''storage''" id "marshal demo_deps" id]
  have k: "\<exists>cm. GetConfigMap (marshal demo_deps) demo_cluster = Inr cm"
    by (simp add: GetConfigMap_def demo_deps_def Let_def)
  then obtain cm where cm: "GetConfigMap (marshal demo_deps) demo_cluster = Inr cm" ..
  from T cm have "map fst (cm_Data cm) = [''cluster-file'', ''fdbmonitor-conf-storage'', ''sidecar-conf'']"
    by simp
  with cm T show ?thesis by simp
qed

section \<open>Replacing misconfigured pods\<close>

lemma claim_step_frame: "snd (claim_step d cl pvc rem has) = (rem, has)"
  by (simp add: claim_step_def Let_def split: sum.split option.split prod.split)

lemma claims_loop_frame: "snd (claims_loop d cl pvcs rem has) = (rem, has)"
proof (induction pvcs)
  case Nil
  then show ?case by simp
next
  case (Cons pvc pvcs)
  obtain e where "claim_step d cl pvc rem has = (e, rem, has)"
    using claim_step_frame [of d cl pvc rem has] by (cases "claim_step d cl pvc rem has") simp
  with Cons show ?case by (cases e) simp_all
qed

lemma shared_map_same: "shared_map cl (removals_of cl) = cl"
  by (simp add: shared_map_def removals_of_def split: option.split)

lemma removals_of_shared_map:
  "dom rem = dom (removals_of cl) \<Longrightarrow> removals_of cl \<subseteq>\<^sub>m rem \<Longrightarrow> shared_map cl rem = cl"
proof -
  assume "dom rem = dom (removals_of cl)" "removals_of cl \<subseteq>\<^sub>m rem"
  then have "rem = removals_of cl" by (metis map_le_antisym map_le_def)
  then show ?thesis by (simp add: shared_map_same)
qed

lemma instances_loop_Cons:
  "instances_loop d cl (inst # insts) rem has =
     (if in_HasPod inst \<and> rem (in_InstanceID inst) = None then
        (case needs_removal d cl inst of
           Inl err \<Rightarrow> (Some err, rem, has)
         | Inr b \<Rightarrow>
             if b then instances_loop d cl insts (rem(in_InstanceID inst \<mapsto> getPendingRemovalState d inst)) True
             else instances_loop d cl insts rem has)
      else instances_loop d cl insts rem has)"
  by (simp add: Let_def)

declare instances_loop.simps(2) [simp del]

lemma instances_loop_skip:
  "\<not> (in_HasPod inst \<and> rem (in_InstanceID inst) = None) \<Longrightarrow>
   instances_loop d cl (inst # insts) rem has = instances_loop d cl insts rem has"
  by (subst instances_loop_Cons) (rule if_not_P)

lemma instances_loop_ok:
  "instances_loop d cl insts rem has = (None, rem', has') \<Longrightarrow>
     dom rem' = dom rem \<union> marks d cl insts \<and> rem \<subseteq>\<^sub>m rem'
     \<and> (has' \<longleftrightarrow> has \<or> \<not> marks d cl insts \<subseteq> dom rem)"
proof (induction insts arbitrary: rem has)
  case Nil
  then show ?case by (simp add: marks_def)
next
  case (Cons inst insts)
  let ?id = "in_InstanceID inst"
  have m0: "marks d cl (inst # insts) =
      (if in_HasPod inst \<and> needs_removal d cl inst = Inr True then {?id} else {}) \<union> marks d cl insts"
    by (auto simp: marks_def)
  show ?case
  proof (cases "in_HasPod inst \<and> rem ?id = None")
    case False
    then have skip: "instances_loop d cl insts rem has = (None, rem', has')"
      using Cons.prems(1) instances_loop_skip [of inst rem d cl insts has] by simp
    note IH = Cons.IH [OF skip]
    from False have "in_HasPod inst \<and> needs_removal d cl inst = Inr True \<longrightarrow> ?id \<in> dom rem"
      by auto
    with IH m0 show ?thesis by auto
  next
    case True
    show ?thesis
    proof (cases "needs_removal d cl inst")
      case (Inl err)
      with True Cons.prems show ?thesis by (simp add: instances_loop_Cons)
    next
      case (Inr b)
      show ?thesis
      proof (cases b)
        case False
        with Inr True Cons.prems have "instances_loop d cl insts rem has = (None, rem', has')"
          by (simp add: instances_loop_Cons)
        note IH = Cons.IH [OF this]
        from Inr False m0 have "marks d cl (inst # insts) = marks d cl insts" by simp
        with IH show ?thesis by simp
      next
        case b: True
        let ?rem1 = "rem(?id \<mapsto> getPendingRemovalState d inst)"
        from Inr b True Cons.prems have "instances_loop d cl insts ?rem1 True = (None, rem', has')"
          by (simp add: instances_loop_Cons)
        note IH = Cons.IH [OF this]
        from Inr b True m0 have m: "marks d cl (inst # insts) = insert ?id (marks d cl insts)"
          and nin: "?id \<notin> dom rem"
          by auto
        from IH have d: "dom rem' = insert ?id (dom rem) \<union> marks d cl insts"
          by (auto simp: dom_def split: if_splits)
        from IH True have le: "rem \<subseteq>\<^sub>m rem'"
          by (auto simp: map_le_def dom_def split: if_splits)
        from IH have h: "has'" by simp
        from d le h m nin show ?thesis by auto
      qed
    qed
  qed
qed

lemma instances_loop_again:
  "instances_loop d cl insts rem has = (None, rem', has') \<Longrightarrow> dom rem' \<subseteq> dom rem2 \<Longrightarrow>
   needs_removal d cl2 = needs_removal d cl \<Longrightarrow>
   instances_loop d cl2 insts rem2 has2 = (None, rem2, has2)"
proof (induction insts arbitrary: rem has)
  case Nil
  then show ?case by simp
next
  case (Cons inst insts)
  let ?id = "in_InstanceID inst"
  show ?case
  proof (cases "in_HasPod inst \<and> rem ?id = None")
    case False
    then have skip: "instances_loop d cl insts rem has = (None, rem', has')"
      using Cons.prems(1) instances_loop_skip [of inst rem d cl insts has] by simp
    note IH = Cons.IH [OF skip Cons.prems(2,3)]
    from instances_loop_ok [OF skip] have "dom rem \<subseteq> dom rem'" by auto
    with False Cons.prems(2) have "\<not> (in_HasPod inst \<and> rem2 ?id = None)"
      by (fastforce simp: subset_iff dom_def)
    from instances_loop_skip [of inst rem2 d cl2 insts has2, OF this] IH show ?thesis by simp
  next
    case True
    show ?thesis
    proof (cases "needs_removal d cl inst")
      case (Inl err)
      with True Cons.prems show ?thesis by (simp add: instances_loop_Cons)
    next
      case (Inr b)
      show ?thesis
      proof (cases b)
        case False
        with Inr True Cons.prems have "instances_loop d cl insts rem has = (None, rem', has')"
          by (simp add: instances_loop_Cons)
        note IH = Cons.IH [OF this Cons.prems(2,3)]
        with Inr False Cons.prems(3) show ?thesis by (simp add: instances_loop_Cons)
      next
        case b: True
        let ?rem1 = "rem(?id \<mapsto> getPendingRemovalState d inst)"
        from Inr b True Cons.prems have run: "instances_loop d cl insts ?rem1 True = (None, rem', has')"
          by (simp add: instances_loop_Cons)
        note IH = Cons.IH [OF run Cons.prems(2,3)]
        from instances_loop_ok [OF run] have "?id \<in> dom rem'" by auto
        with Cons.prems(2) have "\<not> (in_HasPod inst \<and> rem2 ?id = None)"
          by (fastforce simp: subset_iff dom_def)
        from instances_loop_skip [of inst rem2 d cl2 insts has2, OF this] IH show ?thesis by simp
      qed
    qed
  qed
qed

lemma claim_step_again:
  "fst (claim_step d cl pvc rem has) = None \<Longrightarrow> dom rem \<subseteq> dom rem2 \<Longrightarrow>
   fc_UID cl2 = fc_UID cl \<Longrightarrow> fc_Spec cl2 = fc_Spec cl \<Longrightarrow>
   fst (claim_step d cl2 pvc rem2 has2) = None"
  by (auto simp: claim_step_def Let_def split: sum.splits option.splits prod.splits if_splits)

lemma claims_loop_again:
  "fst (claims_loop d cl pvcs rem has) = None \<Longrightarrow> dom rem \<subseteq> dom rem2 \<Longrightarrow>
   fc_UID cl2 = fc_UID cl \<Longrightarrow> fc_Spec cl2 = fc_Spec cl \<Longrightarrow>
   fst (claims_loop d cl2 pvcs rem2 has2) = None"
proof (induction pvcs)
  case Nil
  then show ?case by simp
next
  case (Cons pvc pvcs)
  obtain e where e: "claim_step d cl pvc rem has = (e, rem, has)"
    using claim_step_frame [of d cl pvc rem has] by (cases "claim_step d cl pvc rem has") simp
  obtain e2 where e2: "claim_step d cl2 pvc rem2 has2 = (e2, rem2, has2)"
    using claim_step_frame [of d cl2 pvc rem2 has2] by (cases "claim_step d cl2 pvc rem2 has2") simp
  from Cons.prems(1) e have "e = None" by (cases e) simp_all
  with e have "fst (claim_step d cl pvc rem has) = None" by simp
  from claim_step_again [OF this Cons.prems(2,3,4), of has2] e2 have "e2 = None" by simp
  moreover from Cons.prems(1) e \<open>e = None\<close> have "fst (claims_loop d cl pvcs rem has) = None" by simp
  ultimately show ?case using Cons.IH Cons.prems(2,3,4) e2 by simp
qed

lemma instances_loop_idle:
  "\<forall>inst \<in> set insts. in_HasPod inst \<and> rem (in_InstanceID inst) = None \<longrightarrow> needs_removal d cl inst = Inr False
   \<Longrightarrow> instances_loop d cl insts rem has = (None, rem, has)"
proof (induction insts)
  case Nil
  then show ?case by simp
next
  case (Cons inst insts)
  then show ?case by (simp add: instances_loop_Cons)
qed

text \<open>
  Claim C3. The loop over the volume claims never changes the map of pending removals
  nor the flag \<open>hasNewRemovals\<close>, whatever the claims, their stamped hashes and the
  desired hashes are: the branch that would add an entry is not reachable. Hence, when no
  listed instance with a pod is due for removal, a run sends no status update and leaves
  the cluster object as it was, whatever the volume claims are.
\<close>

theorem claim_hash_never_marks:
  "snd (claims_loop d cl pvcs removals hasNewRemovals) = (removals, hasNewRemovals)
   \<and> (List_claims d = Inr pvcs \<and> GetInstances d = Inr insts
        \<and> (\<forall>inst \<in> set insts. in_HasPod inst \<and> removals_of cl (in_InstanceID inst) = None
               \<longrightarrow> needs_removal d cl inst = Inr False)
       \<longrightarrow> rr_updates (ReplaceMisconfiguredPods d cl) = []
           \<and> rr_cluster (ReplaceMisconfiguredPods d cl) = cl)"
proof (intro conjI impI; (elim conjE)?)
  show "snd (claims_loop d cl pvcs removals hasNewRemovals) = (removals, hasNewRemovals)"
    by (rule claims_loop_frame)
next
  assume a: "List_claims d = Inr pvcs" "GetInstances d = Inr insts"
    "\<forall>inst \<in> set insts. in_HasPod inst \<and> removals_of cl (in_InstanceID inst) = None
               \<longrightarrow> needs_removal d cl inst = Inr False"
  obtain e where e: "claims_loop d cl pvcs (removals_of cl) False = (e, removals_of cl, False)"
    using claims_loop_frame [of d cl pvcs "removals_of cl" False]
    by (cases "claims_loop d cl pvcs (removals_of cl) False") simp
  have i: "instances_loop d cl insts (removals_of cl) False = (None, removals_of cl, False)"
    using a(3) by (rule instances_loop_idle)
  from a(1,2) e i show "rr_updates (ReplaceMisconfiguredPods d cl) = []"
    by (cases e) (simp_all add: ReplaceMisconfiguredPods_def)
  from a(1,2) e i show "rr_cluster (ReplaceMisconfiguredPods d cl) = cl"
    by (cases e) (simp_all add: ReplaceMisconfiguredPods_def shared_map_same)
qed

lemma demo_needs_1:
  "needs_removal demo_replace_deps demo_fdb_cluster (demo_instance ''storage-1'' ''pod-hash'') = Inr False"
  by (simp add: needs_removal_def demo_replace_deps_def demo_fdb_cluster_def demo_instance_def)

lemma demo_needs_2:
  "needs_removal demo_replace_deps demo_fdb_cluster (demo_instance ''dc1-storage-2'' ''pod-hash'') = Inr True"
  by (simp add: needs_removal_def demo_replace_deps_def demo_fdb_cluster_def demo_instance_def)

text \<open>
  A volume claim of the cluster whose stamped hash differs from the desired one, with
  its instance as desired: nothing is marked and nothing is written.
\<close>

theorem claim_hash_never_marks_witness:
  "annotation_of (pvc_Annotations demo_claim) LastSpecKey
      \<noteq> fst (GetJSONHash idle_replace_deps ''claim'')
   \<and> rr_updates (ReplaceMisconfiguredPods idle_replace_deps demo_fdb_cluster) = []
   \<and> rr_cluster (ReplaceMisconfiguredPods idle_replace_deps demo_fdb_cluster) = demo_fdb_cluster"
proof -
  have n: "needs_removal idle_replace_deps demo_fdb_cluster (demo_instance ''storage-1'' ''pod-hash'') = Inr False"
    by (simp add: needs_removal_def idle_replace_deps_def demo_replace_deps_def demo_fdb_cluster_def
          demo_instance_def)
  have m: "annotation_of (pvc_Annotations demo_claim) LastSpecKey
      \<noteq> fst (GetJSONHash idle_replace_deps ''claim'')"
    by (simp add: annotation_of_def demo_claim_def idle_replace_deps_def demo_replace_deps_def)
  from claim_hash_never_marks
         [of idle_replace_deps demo_fdb_cluster "[demo_claim]" Map.empty False
             "[demo_instance ''storage-1'' ''pod-hash'']"] n m
  show ?thesis
    by (simp add: idle_replace_deps_def demo_replace_deps_def)
qed

lemma needs_removal_eq:
  "ParseInstanceID_dep d (in_InstanceID inst) = Inr (pc, n) \<Longrightarrow>
   (fc_UpdatePodsByReplacement cl \<Longrightarrow> GetPodSpecHash d (fc_Spec cl) (in_ProcessClass inst) n = Inr h) \<Longrightarrow>
   needs_removal d cl inst =
     Inr (in_InstanceID inst \<noteq> snd (getInstanceID_dep d (fc_Spec cl) (in_ProcessClass inst) n)
          \<or> (fc_UpdatePodsByReplacement cl \<and> annotation_of (in_Annotations inst) LastSpecKey \<noteq> h))"
  by (auto simp: needs_removal_def Let_def split: prod.splits)

lemma needs_removal_cong:
  "fc_Spec cl2 = fc_Spec cl \<Longrightarrow> fc_UpdatePodsByReplacement cl2 = fc_UpdatePodsByReplacement cl \<Longrightarrow>
   needs_removal d cl2 = needs_removal d cl"
  by (rule ext) (simp add: needs_removal_def Let_def split: sum.split prod.split)

lemma removals_of_update: "removals_of (cl\<lparr>fc_PendingRemovals := Some m\<rparr>) = m"
  by (simp add: removals_of_def)

lemma removals_of_shared: "m = removals_of cl \<or> fc_PendingRemovals cl \<noteq> None \<Longrightarrow> removals_of (shared_map cl m) = m"
  by (auto simp: removals_of_def shared_map_def split: option.splits)

lemma replace_ok_run:
  assumes claims: "List_claims d = Inr pvcs"
    and claims_ok: "fst (claims_loop d cl pvcs (removals_of cl) False) = None"
    and insts: "GetInstances d = Inr insts"
    and loop: "instances_loop d cl insts (removals_of cl) False = (None, rem', has')"
  shows "ReplaceMisconfiguredPods d cl =
           (if has' then
              \<lparr>rr_done = (Status_Update d (cl\<lparr>fc_PendingRemovals := Some rem'\<rparr>) = None),
               rr_err = Status_Update d (cl\<lparr>fc_PendingRemovals := Some rem'\<rparr>),
               rr_cluster = cl\<lparr>fc_PendingRemovals := Some rem'\<rparr>,
               rr_updates = [cl\<lparr>fc_PendingRemovals := Some rem'\<rparr>]\<rparr>
            else \<lparr>rr_done = True, rr_err = None, rr_cluster = shared_map cl rem', rr_updates = []\<rparr>)"
proof -
  from claims_ok claims_loop_frame [of d cl pvcs "removals_of cl" False]
  have c: "claims_loop d cl pvcs (removals_of cl) False = (None, removals_of cl, False)"
    by (cases "claims_loop d cl pvcs (removals_of cl) False") simp
  from claims insts c loop show ?thesis
    by (simp add: ReplaceMisconfiguredPods_def Let_def split: option.split)
qed

lemma replace_updates_bound:
  "length (rr_updates (ReplaceMisconfiguredPods d cl)) \<le> 1
   \<and> (rr_updates (ReplaceMisconfiguredPods d cl) \<noteq> [] \<longrightarrow>
        dom (removals_of (rr_cluster (ReplaceMisconfiguredPods d cl))) \<noteq> dom (removals_of cl))"
proof (cases "List_claims d")
  case (Inl err)
  then show ?thesis by (simp add: ReplaceMisconfiguredPods_def)
next
  case claims: (Inr pvcs)
  obtain e where c: "claims_loop d cl pvcs (removals_of cl) False = (e, removals_of cl, False)"
    using claims_loop_frame [of d cl pvcs "removals_of cl" False]
    by (cases "claims_loop d cl pvcs (removals_of cl) False") simp
  show ?thesis
  proof (cases e)
    case (Some err)
    with claims c show ?thesis by (simp add: ReplaceMisconfiguredPods_def)
  next
    case None
    show ?thesis
    proof (cases "GetInstances d")
      case (Inl err)
      with claims c None show ?thesis by (simp add: ReplaceMisconfiguredPods_def)
    next
      case insts: (Inr insts)
      obtain e' rem' has' where l: "instances_loop d cl insts (removals_of cl) False = (e', rem', has')"
        by (cases "instances_loop d cl insts (removals_of cl) False") auto
      show ?thesis
      proof (cases e')
        case (Some err)
        with claims c None insts l show ?thesis by (simp add: ReplaceMisconfiguredPods_def)
      next
        case n: None
        from c None have ok: "fst (claims_loop d cl pvcs (removals_of cl) False) = None" by simp
        note run = replace_ok_run [OF claims ok insts l [unfolded n]]
        from instances_loop_ok [OF l [unfolded n]]
        have "has' \<Longrightarrow> dom rem' \<noteq> dom (removals_of cl)" by auto
        with run show ?thesis by (auto simp: removals_of_update)
      qed
    qed
  qed
qed

text \<open>
  Claim C1. In a run of \<open>ReplaceMisconfiguredPods\<close> whose listings and loops meet no
  error, the identifiers pending removal afterwards are those pending before together
  with the identifiers of the listed instances that have a pod and are due for removal;
  the entries present before are kept as they are. The status is sent once when an
  identifier was added and not at all otherwise, and a second run on the resulting cluster
  object adds nothing and sends nothing. An instance is due for removal exactly when its
  identifier differs from the one computed for its process class and number, or
  \<open>UpdatePodsByReplacement\<close> is set and its stamped specification hash differs from the
  computed one. In every run, also one that ends with an error, at most one status update
  is sent, and none unless an identifier was added.
\<close>

theorem ReplaceMisconfiguredPods_marks:
  fixes d :: "('sp, 'rs, 'claim) replace_deps" and cl :: "('sp, 'rs) fdb_cluster"
  defines "res \<equiv> ReplaceMisconfiguredPods d cl"
  defines "res2 \<equiv> ReplaceMisconfiguredPods d (rr_cluster res)"
  shows "(List_claims d = Inr pvcs \<and> fst (claims_loop d cl pvcs (removals_of cl) False) = None
          \<and> GetInstances d = Inr insts \<and> fst (instances_loop d cl insts (removals_of cl) False) = None
          \<longrightarrow> dom (removals_of (rr_cluster res)) = dom (removals_of cl) \<union> marks d cl insts
              \<and> removals_of cl \<subseteq>\<^sub>m removals_of (rr_cluster res)
              \<and> rr_updates res = (if marks d cl insts \<subseteq> dom (removals_of cl) then [] else [rr_cluster res])
              \<and> rr_err res = (if marks d cl insts \<subseteq> dom (removals_of cl) then None
                               else Status_Update d (rr_cluster res))
              \<and> rr_cluster res2 = rr_cluster res \<and> rr_updates res2 = [] \<and> rr_err res2 = None)
       \<and> (ParseInstanceID_dep d (in_InstanceID inst) = Inr (pc, n)
          \<and> (fc_UpdatePodsByReplacement cl \<longrightarrow>
                GetPodSpecHash d (fc_Spec cl) (in_ProcessClass inst) n = Inr h)
          \<longrightarrow> needs_removal d cl inst =
                Inr (in_InstanceID inst \<noteq> snd (getInstanceID_dep d (fc_Spec cl) (in_ProcessClass inst) n)
                     \<or> (fc_UpdatePodsByReplacement cl
                         \<and> annotation_of (in_Annotations inst) LastSpecKey \<noteq> h)))
       \<and> length (rr_updates res) \<le> 1
       \<and> (rr_updates res \<noteq> [] \<longrightarrow> dom (removals_of (rr_cluster res)) \<noteq> dom (removals_of cl))"
proof (intro conjI)
  show "length (rr_updates res) \<le> 1"
    and "rr_updates res \<noteq> [] \<longrightarrow> dom (removals_of (rr_cluster res)) \<noteq> dom (removals_of cl)"
    unfolding res_def using replace_updates_bound [of d cl] by simp_all
next
  show "ParseInstanceID_dep d (in_InstanceID inst) = Inr (pc, n)
          \<and> (fc_UpdatePodsByReplacement cl \<longrightarrow>
                GetPodSpecHash d (fc_Spec cl) (in_ProcessClass inst) n = Inr h)
          \<longrightarrow> needs_removal d cl inst =
                Inr (in_InstanceID inst \<noteq> snd (getInstanceID_dep d (fc_Spec cl) (in_ProcessClass inst) n)
                     \<or> (fc_UpdatePodsByReplacement cl
                         \<and> annotation_of (in_Annotations inst) LastSpecKey \<noteq> h))"
    using needs_removal_eq [of d inst pc n cl h] by blast
next
  show "List_claims d = Inr pvcs \<and> fst (claims_loop d cl pvcs (removals_of cl) False) = None
          \<and> GetInstances d = Inr insts \<and> fst (instances_loop d cl insts (removals_of cl) False) = None
          \<longrightarrow> dom (removals_of (rr_cluster res)) = dom (removals_of cl) \<union> marks d cl insts
              \<and> removals_of cl \<subseteq>\<^sub>m removals_of (rr_cluster res)
              \<and> rr_updates res = (if marks d cl insts \<subseteq> dom (removals_of cl) then [] else [rr_cluster res])
              \<and> rr_err res = (if marks d cl insts \<subseteq> dom (removals_of cl) then None
                               else Status_Update d (rr_cluster res))
              \<and> rr_cluster res2 = rr_cluster res \<and> rr_updates res2 = [] \<and> rr_err res2 = None"
  proof (intro impI, elim conjE)
    assume claims: "List_claims d = Inr pvcs"
      and claims_ok: "fst (claims_loop d cl pvcs (removals_of cl) False) = None"
      and insts: "GetInstances d = Inr insts"
      and insts_ok: "fst (instances_loop d cl insts (removals_of cl) False) = None"
    let ?rem = "removals_of cl"
    obtain rem' has' where l: "instances_loop d cl insts ?rem False = (None, rem', has')"
      using insts_ok by (cases "instances_loop d cl insts ?rem False") auto
    note run = replace_ok_run [OF claims claims_ok insts l]
    from instances_loop_ok [OF l]
    have dom': "dom rem' = dom ?rem \<union> marks d cl insts" and le: "?rem \<subseteq>\<^sub>m rem'"
      and has: "has' \<longleftrightarrow> \<not> marks d cl insts \<subseteq> dom ?rem"
      by simp_all
    have same: "\<not> has' \<Longrightarrow> rem' = ?rem"
    proof -
      assume "\<not> has'"
      with has dom' have "dom rem' = dom ?rem" by auto
      with le show "rem' = ?rem" by (metis map_le_antisym map_le_def)
    qed
    have cl2: "rr_cluster res = (if has' then cl\<lparr>fc_PendingRemovals := Some rem'\<rparr> else cl)"
      unfolding res_def run using same by (simp add: shared_map_same)
    have rem2: "removals_of (rr_cluster res) = rem'"
      unfolding cl2 using same by (simp add: removals_of_update)
    have uid: "fc_UID (rr_cluster res) = fc_UID cl" and spec: "fc_Spec (rr_cluster res) = fc_Spec cl"
      and flag: "fc_UpdatePodsByReplacement (rr_cluster res) = fc_UpdatePodsByReplacement cl"
      unfolding cl2 by simp_all
    have c2: "fst (claims_loop d (rr_cluster res) pvcs (removals_of (rr_cluster res)) False) = None"
      unfolding rem2 using claims_ok _ uid spec
      by (rule claims_loop_again) (simp add: dom')
    have l2: "instances_loop d (rr_cluster res) insts (removals_of (rr_cluster res)) False
                = (None, removals_of (rr_cluster res), False)"
      unfolding rem2 using l _ needs_removal_cong [OF spec flag]
      by (rule instances_loop_again) simp
    note run2 = replace_ok_run [OF claims c2 insts l2]
    show "dom (removals_of (rr_cluster res)) = dom ?rem \<union> marks d cl insts
              \<and> ?rem \<subseteq>\<^sub>m removals_of (rr_cluster res)
              \<and> rr_updates res = (if marks d cl insts \<subseteq> dom ?rem then [] else [rr_cluster res])
              \<and> rr_err res = (if marks d cl insts \<subseteq> dom ?rem then None
                               else Status_Update d (rr_cluster res))
              \<and> rr_cluster res2 = rr_cluster res \<and> rr_updates res2 = [] \<and> rr_err res2 = None"
    proof (intro conjI)
      show "dom (removals_of (rr_cluster res)) = dom ?rem \<union> marks d cl insts"
        unfolding rem2 by (rule dom')
      show "?rem \<subseteq>\<^sub>m removals_of (rr_cluster res)" unfolding rem2 by (rule le)
      show "rr_updates res = (if marks d cl insts \<subseteq> dom ?rem then [] else [rr_cluster res])"
        unfolding cl2 unfolding res_def run using has by simp
      show "rr_err res = (if marks d cl insts \<subseteq> dom ?rem then None else Status_Update d (rr_cluster res))"
        unfolding cl2 unfolding res_def run using has by simp
      show "rr_cluster res2 = rr_cluster res" unfolding res2_def run2 by (simp add: shared_map_same)
      show "rr_updates res2 = []" unfolding res2_def run2 by simp
      show "rr_err res2 = None" unfolding res2_def run2 by simp
    qed
  qed
qed

lemma marks_Nil: "marks d cl [] = {}"
  by (simp add: marks_def)

lemma marks_Cons:
  "marks d cl (inst # insts) =
     (if in_HasPod inst \<and> needs_removal d cl inst = Inr True then {in_InstanceID inst} else {})
     \<union> marks d cl insts"
  by (auto simp: marks_def)

lemma demo_marks:
  "marks demo_replace_deps demo_fdb_cluster
     [demo_instance ''storage-1'' ''pod-hash'', demo_instance ''dc1-storage-2'' ''pod-hash'']
   = {''dc1-storage-2''}"
proof -
  have i: "in_HasPod (demo_instance ''dc1-storage-2'' ''pod-hash'')"
    "in_InstanceID (demo_instance ''dc1-storage-2'' ''pod-hash'') = ''dc1-storage-2''"
    by (simp_all add: demo_instance_def)
  show ?thesis
    by (simp add: marks_Cons marks_Nil demo_needs_1 demo_needs_2 i)
qed

text \<open>
  Two instances, the second with an identifier that is no longer the desired one: it is
  the one identifier added, one status update is sent, and a second run sends none.
\<close>

theorem ReplaceMisconfiguredPods_marks_witness:
  "dom (removals_of (rr_cluster (ReplaceMisconfiguredPods demo_replace_deps demo_fdb_cluster)))
     = {''dc1-storage-2''}
   \<and> length (rr_updates (ReplaceMisconfiguredPods demo_replace_deps demo_fdb_cluster)) = 1
   \<and> rr_updates (ReplaceMisconfiguredPods demo_replace_deps
         (rr_cluster (ReplaceMisconfiguredPods demo_replace_deps demo_fdb_cluster))) = []"
proof -
  let ?insts = "[demo_instance ''storage-1'' ''pod-hash'', demo_instance ''dc1-storage-2'' ''pod-hash'']"
  have r0: "removals_of demo_fdb_cluster = Map.empty"
    by (simp add: removals_of_def demo_fdb_cluster_def)
  have a: "List_claims demo_replace_deps = Inr [demo_claim]"
    and c: "GetInstances demo_replace_deps = Inr ?insts"
    by (simp_all add: demo_replace_deps_def)
  have b: "fst (claims_loop demo_replace_deps demo_fdb_cluster [demo_claim] (removals_of demo_fdb_cluster) False) = None"
  proof -
    have u: "fc_UID demo_fdb_cluster = ''uid-1''" by (simp add: demo_fdb_cluster_def)
    show ?thesis
      by (simp add: r0 u claim_step_def Let_def demo_replace_deps_def demo_claim_def)
  qed
  have i1: "in_HasPod (demo_instance ''storage-1'' ''pod-hash'')"
    and i2: "in_HasPod (demo_instance ''dc1-storage-2'' ''pod-hash'')"
    and n1: "in_InstanceID (demo_instance ''storage-1'' ''pod-hash'') = ''storage-1''"
    and n2: "in_InstanceID (demo_instance ''dc1-storage-2'' ''pod-hash'') = ''dc1-storage-2''"
    by (simp_all add: demo_instance_def)
  have d: "fst (instances_loop demo_replace_deps demo_fdb_cluster ?insts (removals_of demo_fdb_cluster) False) = None"
    by (simp add: r0 instances_loop_Cons demo_needs_1 demo_needs_2 i1 i2 n1 n2)
  from ReplaceMisconfiguredPods_marks
         [where d = demo_replace_deps and cl = demo_fdb_cluster and pvcs = "[demo_claim]"
            and insts = ?insts]
       a b c d demo_marks r0
  show ?thesis by simp
qed

section \<open>Synchronising the dynamic configuration\<close>

lemma stamp_annotation [simp]:
  "annotation_of (in_Annotations (stamp h inst)) LastConfigMapKey = h"
  by (simp add: stamp_def annotation_of_def)

lemma sync_instances_Cons:
  "sync_instances d h index (inst # rest) =
     (if annotation_of (in_Annotations inst) LastConfigMapKey = h then
        (case sync_instances d h (Suc index) rest of
           (res, rest', effects) \<Rightarrow> (res, inst # rest', effects))
      else if \<not> fst (ud_updatePodDynamicConf d inst) then
        (ud_updatePodDynamicConf d inst, inst # rest, [ConfPushed index])
      else if in_Annotations inst = None then
        ((False, Some (Panic ''assignment to entry in nil map'')), inst # rest, [ConfPushed index])
      else
        (case ud_UpdateMetadata d (stamp h inst) of
           Some err' \<Rightarrow>
             ((False, Some err'), stamp h inst # rest,
              [ConfPushed index, MetadataUpdated index (stamp h inst)])
         | None \<Rightarrow>
             (case sync_instances d h (Suc index) rest of
                (res, rest', effects) \<Rightarrow>
                  (res, stamp h inst # rest',
                   [ConfPushed index, MetadataUpdated index (stamp h inst)] @ effects))))"
  by (auto simp: Let_def split: prod.split option.split)

declare sync_instances.simps(2) [simp del]

lemma sync_instances_length:
  "length (fst (snd (sync_instances d h index insts))) = length insts"
proof (induction insts arbitrary: index)
  case Nil
  then show ?case by simp
next
  case (Cons inst insts)
  from Cons [of "Suc index"] show ?case
    by (auto simp: sync_instances_Cons split: prod.split option.split)
qed

lemma sync_instances_indices:
  "e \<in> set (snd (snd (sync_instances d h index insts))) \<Longrightarrow>
   \<exists>k. effect_index e = Some k \<and> index \<le> k \<and> k < index + length insts
       \<and> annotation_of (in_Annotations (insts ! (k - index))) LastConfigMapKey \<noteq> h"
proof (induction insts arbitrary: index)
  case Nil
  then show ?case by simp
next
  case (Cons inst insts)
  show ?case
  proof (cases "e \<in> set (snd (snd (sync_instances d h (Suc index) insts)))")
    case True
    from Cons.IH [OF True] obtain k where k: "effect_index e = Some k" "Suc index \<le> k"
      "k < Suc index + length insts"
      "annotation_of (in_Annotations (insts ! (k - Suc index))) LastConfigMapKey \<noteq> h"
      by blast
    then have "(inst # insts) ! (k - index) = insts ! (k - Suc index)"
      by (simp add: nth_Cons split: nat.split) (metis Suc_diff_le diff_Suc_Suc old.nat.inject)
    with k show ?thesis by (intro exI [of _ k]) simp
  next
    case False
    with Cons.prems have "annotation_of (in_Annotations inst) LastConfigMapKey \<noteq> h
        \<and> (e = ConfPushed index \<or> e = MetadataUpdated index (stamp h inst))"
      by (auto simp: sync_instances_Cons split: if_splits prod.splits option.splits)
    then show ?thesis by (intro exI [of _ index]) auto
  qed
qed

lemma sync_instances_untouched:
  "k < length insts \<Longrightarrow> annotation_of (in_Annotations (insts ! k)) LastConfigMapKey = h \<Longrightarrow>
   fst (snd (sync_instances d h index insts)) ! k = insts ! k"
proof (induction insts arbitrary: index k)
  case Nil
  then show ?case by simp
next
  case (Cons inst insts)
  show ?case
  proof (cases k)
    case 0
    with Cons.prems show ?thesis by (simp add: sync_instances_Cons split: prod.split)
  next
    case (Suc k')
    with Cons.prems have "fst (snd (sync_instances d h (Suc index) insts)) ! k' = insts ! k'"
      by (intro Cons.IH) simp_all
    with Suc show ?thesis
      by (auto simp: sync_instances_Cons split: prod.split option.split)
  qed
qed

lemma sync_instances_done:
  "fst (sync_instances d h index insts) = (True, None) \<Longrightarrow>
   (\<forall>inst \<in> set (fst (snd (sync_instances d h index insts))).
       annotation_of (in_Annotations inst) LastConfigMapKey = h)
   \<and> snd (snd (sync_instances d h index insts)) = sync_effects h index insts"
proof (induction insts arbitrary: index)
  case Nil
  then show ?case by simp
next
  case (Cons inst insts)
  from Cons.prems have "fst (sync_instances d h (Suc index) insts) = (True, None)"
    by (auto simp: sync_instances_Cons split: if_splits prod.splits option.splits)
  from Cons.IH [OF this] Cons.prems show ?case
    by (auto simp: sync_instances_Cons split: if_splits prod.splits option.splits)
qed

lemma sync_instances_failure:
  "sync_instances d h index pre = ((True, None), pre', effects) \<Longrightarrow>
   annotation_of (in_Annotations inst) LastConfigMapKey \<noteq> h \<Longrightarrow>
   ud_updatePodDynamicConf d inst = (False, err) \<Longrightarrow>
   sync_instances d h index (pre @ inst # post) =
     ((False, err), pre' @ inst # post, effects @ [ConfPushed (index + length pre)])"
proof (induction pre arbitrary: index pre' effects)
  case Nil
  then show ?case by (simp add: sync_instances_Cons)
next
  case (Cons p pre)
  obtain res rest' effs where r: "sync_instances d h (Suc index) pre = (res, rest', effs)"
    by (cases "sync_instances d h (Suc index) pre") auto
  with Cons.prems(1) have res: "res = (True, None)"
    by (auto simp: sync_instances_Cons split: if_splits prod.splits option.splits)
  from Cons.IH [OF r [unfolded res] Cons.prems(2,3)] r res Cons.prems(1)
  show ?case
    by (auto simp: sync_instances_Cons split: if_splits prod.splits option.splits)
qed

lemma sync_instances_append:
  "sync_instances d h index pre = ((True, None), pre', effects) \<Longrightarrow>
   sync_instances d h index (pre @ rest) =
     (case sync_instances d h (index + length pre) rest of
        (res, rest', effects') \<Rightarrow> (res, pre' @ rest', effects @ effects'))"
proof (induction pre arbitrary: index pre' effects)
  case Nil
  then show ?case by (simp split: prod.split)
next
  case (Cons p pre)
  obtain res rest' effs where r: "sync_instances d h (Suc index) pre = (res, rest', effs)"
    by (cases "sync_instances d h (Suc index) pre") auto
  with Cons.prems have res: "res = (True, None)"
    by (auto simp: sync_instances_Cons split: if_splits prod.splits option.splits)
  from Cons.IH [OF r [unfolded res]] r res Cons.prems
  show ?case
    by (auto simp: sync_instances_Cons split: if_splits prod.splits option.splits)
qed

lemma sync_instances_meta_failure:
  "sync_instances d h index pre = ((True, None), pre', effects) \<Longrightarrow>
   annotation_of (in_Annotations inst) LastConfigMapKey \<noteq> h \<Longrightarrow>
   fst (ud_updatePodDynamicConf d inst) \<Longrightarrow> in_Annotations inst \<noteq> None \<Longrightarrow>
   ud_UpdateMetadata d (stamp h inst) = Some err \<Longrightarrow>
   sync_instances d h index (pre @ inst # post) =
     ((False, Some err), pre' @ stamp h inst # post,
      effects @ [ConfPushed (index + length pre), MetadataUpdated (index + length pre) (stamp h inst)])"
  by (simp add: sync_instances_append sync_instances_Cons)

lemma sync_instances_nil_map:
  "sync_instances d h index pre = ((True, None), pre', effects) \<Longrightarrow>
   annotation_of (in_Annotations inst) LastConfigMapKey \<noteq> h \<Longrightarrow>
   fst (ud_updatePodDynamicConf d inst) \<Longrightarrow> in_Annotations inst = None \<Longrightarrow>
   sync_instances d h index (pre @ inst # post) =
     ((False, Some (Panic ''assignment to entry in nil map'')), pre' @ inst # post,
      effects @ [ConfPushed (index + length pre)])"
  by (simp add: sync_instances_append sync_instances_Cons)

lemma sync_instances_done_iff:
  "fst (sync_instances d h index insts) = (True, None) \<longleftrightarrow>
   (\<forall>inst \<in> set insts. annotation_of (in_Annotations inst) LastConfigMapKey \<noteq> h \<longrightarrow>
       fst (ud_updatePodDynamicConf d inst) \<and> in_Annotations inst \<noteq> None
       \<and> ud_UpdateMetadata d (stamp h inst) = None)"
proof (induction insts arbitrary: index)
  case Nil
  then show ?case by simp
next
  case (Cons inst insts)
  show ?case
  proof (cases "annotation_of (in_Annotations inst) LastConfigMapKey = h")
    case True
    with Cons [of "Suc index"] show ?thesis
      by (auto simp: sync_instances_Cons split: prod.splits)
  next
    case False
    show ?thesis
    proof (cases "fst (ud_updatePodDynamicConf d inst) \<and> in_Annotations inst \<noteq> None
        \<and> ud_UpdateMetadata d (stamp h inst) = None")
      case True
      with False Cons [of "Suc index"] show ?thesis
        by (auto simp: sync_instances_Cons split: prod.splits)
    next
      case bad: False
      have "fst (sync_instances d h index (inst # insts)) \<noteq> (True, None)"
      proof (cases "fst (ud_updatePodDynamicConf d inst)")
        case f: False
        then have "fst (sync_instances d h index (inst # insts)) = ud_updatePodDynamicConf d inst"
          using False by (simp add: sync_instances_Cons)
        with f show ?thesis by (cases "ud_updatePodDynamicConf d inst") auto
      next
        case True
        with bad False show ?thesis
          by (auto simp: sync_instances_Cons split: prod.splits option.splits)
      qed
      with bad False show ?thesis by auto
    qed
  qed
qed

lemma sync_instances_done_no_error:
  "fst (fst (sync_instances d h index insts)) \<Longrightarrow> snd (fst (sync_instances d h index insts)) = None"
proof (induction insts arbitrary: index)
  case Nil
  then show ?case by simp
next
  case (Cons inst insts)
  obtain res rest' effs where r: "sync_instances d h (Suc index) insts = (res, rest', effs)"
    by (cases "sync_instances d h (Suc index) insts") auto
  note IH = Cons.IH [of "Suc index", unfolded r]
  show ?case
  proof (cases "annotation_of (in_Annotations inst) LastConfigMapKey = h")
    case True
    with Cons.prems r IH show ?thesis by (simp add: sync_instances_Cons)
  next
    case False
    show ?thesis
    proof (cases "fst (ud_updatePodDynamicConf d inst)")
      case f: False
      with False Cons.prems show ?thesis by (simp add: sync_instances_Cons)
    next
      case t: True
      show ?thesis
      proof (cases "in_Annotations inst = None")
        case True
        with False t Cons.prems show ?thesis by (simp add: sync_instances_Cons)
      next
        case some: False
        show ?thesis
        proof (cases "ud_UpdateMetadata d (stamp h inst)")
          case None
          have "fst (sync_instances d h index (inst # insts)) = res"
            by (simp add: sync_instances_Cons False t some None r)
          with Cons.prems IH show ?thesis by simp
        next
          case (Some e)
          have "fst (sync_instances d h index (inst # insts)) = (False, Some e)"
            by (simp add: sync_instances_Cons False t some Some)
          with Cons.prems show ?thesis by simp
        qed
      qed
    qed
  qed
qed

lemma config_map_phase_effects:
  "config_map_phase d = Inr (h, effects) \<Longrightarrow> e \<in> set effects \<Longrightarrow> effect_index e = None"
  by (auto simp: config_map_phase_def Let_def split: sum.splits if_splits prod.splits option.splits)

text \<open>
  Claim C5. Once the config map is in place and the instances are listed, the step
  handles them in listing order. An instance whose annotation already equals the hash of
  the config map is left as it is, and no push and no metadata update concerns it. When
  the step returns done, every instance carries the hash, and the effects are exactly one
  push followed by one metadata update, carrying the stamped instance, for each instance
  whose annotation differed. When the instances before some instance were handled with
  success and the push to that instance fails, the step returns not done with the error
  of that push; the failing instance and those after it are unchanged, and no push or
  metadata update concerns a later instance. When the push succeeds and the update of the
  metadata fails, the step returns not done with the error of that update; the instance
  carries the new hash in memory, the instances after it are unchanged, and no effect
  concerns a later instance. When the push succeeds and the annotation map is nil, the
  run ends in a panic, which is not done. The step returns done, and then without error,
  exactly when for every instance whose annotation differs the push succeeds, the
  annotation map is not nil and the update of the metadata succeeds; the instances before
  a failing one were handled with success exactly when the same holds for each of them.
\<close>

theorem UpdateConfigMap_sync:
  fixes d :: update_deps
  defines "res \<equiv> UpdateConfigMap_Reconcile d"
  shows "config_map_phase d = Inr (h, effects0) \<and> ud_GetInstances d = Inr insts \<longrightarrow>
     length (ur_instances res) = length insts
   \<and> (\<forall>k < length insts. annotation_of (in_Annotations (insts ! k)) LastConfigMapKey = h \<longrightarrow>
         ur_instances res ! k = insts ! k \<and> (\<forall>e \<in> set (ur_effects res). effect_index e \<noteq> Some k))
   \<and> (ur_done res \<and> ur_err res = None \<longrightarrow>
         (\<forall>inst \<in> set (ur_instances res). annotation_of (in_Annotations inst) LastConfigMapKey = h)
         \<and> ur_effects res = effects0 @ sync_effects h 0 insts)
   \<and> (insts = pre @ inst # post \<and> fst (sync_instances d h 0 pre) = (True, None)
        \<and> annotation_of (in_Annotations inst) LastConfigMapKey \<noteq> h
        \<and> ud_updatePodDynamicConf d inst = (False, err)
       \<longrightarrow> \<not> ur_done res \<and> ur_err res = err \<and> drop (length pre) (ur_instances res) = inst # post
          \<and> (\<forall>e \<in> set (ur_effects res). \<forall>k. effect_index e = Some k \<longrightarrow> k \<le> length pre))
   \<and> (insts = pre @ inst # post \<and> fst (sync_instances d h 0 pre) = (True, None)
        \<and> annotation_of (in_Annotations inst) LastConfigMapKey \<noteq> h
        \<and> fst (ud_updatePodDynamicConf d inst) \<and> in_Annotations inst \<noteq> None
        \<and> ud_UpdateMetadata d (stamp h inst) = Some merr
       \<longrightarrow> \<not> ur_done res \<and> ur_err res = Some merr
          \<and> drop (length pre) (ur_instances res) = stamp h inst # post
          \<and> (\<forall>e \<in> set (ur_effects res). \<forall>k. effect_index e = Some k \<longrightarrow> k \<le> length pre))
   \<and> (insts = pre @ inst # post \<and> fst (sync_instances d h 0 pre) = (True, None)
        \<and> annotation_of (in_Annotations inst) LastConfigMapKey \<noteq> h
        \<and> fst (ud_updatePodDynamicConf d inst) \<and> in_Annotations inst = None
       \<longrightarrow> \<not> ur_done res \<and> ur_err res = Some (Panic ''assignment to entry in nil map'')
          \<and> drop (length pre) (ur_instances res) = inst # post
          \<and> (\<forall>e \<in> set (ur_effects res). \<forall>k. effect_index e = Some k \<longrightarrow> k \<le> length pre))
   \<and> ((ur_done res \<and> ur_err res = None) \<longleftrightarrow>
        (\<forall>i \<in> set insts. annotation_of (in_Annotations i) LastConfigMapKey \<noteq> h \<longrightarrow>
            fst (ud_updatePodDynamicConf d i) \<and> in_Annotations i \<noteq> None
            \<and> ud_UpdateMetadata d (stamp h i) = None))
   \<and> (ur_done res \<longrightarrow> ur_err res = None)
   \<and> (fst (sync_instances d h 0 pre) = (True, None) \<longleftrightarrow>
        (\<forall>i \<in> set pre. annotation_of (in_Annotations i) LastConfigMapKey \<noteq> h \<longrightarrow>
            fst (ud_updatePodDynamicConf d i) \<and> in_Annotations i \<noteq> None
            \<and> ud_UpdateMetadata d (stamp h i) = None))"
proof (intro impI, elim conjE)
  assume phase: "config_map_phase d = Inr (h, effects0)" and listed: "ud_GetInstances d = Inr insts"
  obtain fin err' out effs where run: "sync_instances d h 0 insts = ((fin, err'), out, effs)"
    by (cases "sync_instances d h 0 insts") auto
  have res: "res = \<lparr>ur_done = fin, ur_err = err', ur_instances = out, ur_effects = effects0 @ effs\<rparr>"
    unfolding res_def UpdateConfigMap_Reconcile_def using phase listed run by simp
  have out: "out = fst (snd (sync_instances d h 0 insts))"
    and effs: "effs = snd (snd (sync_instances d h 0 insts))"
    using run by simp_all
  have e0: "\<And>e. e \<in> set effects0 \<Longrightarrow> effect_index e = None"
    using config_map_phase_effects [OF phase] .
  have old: "length (ur_instances res) = length insts
   \<and> (\<forall>k < length insts. annotation_of (in_Annotations (insts ! k)) LastConfigMapKey = h \<longrightarrow>
         ur_instances res ! k = insts ! k \<and> (\<forall>e \<in> set (ur_effects res). effect_index e \<noteq> Some k))
   \<and> (ur_done res \<and> ur_err res = None \<longrightarrow>
         (\<forall>inst \<in> set (ur_instances res). annotation_of (in_Annotations inst) LastConfigMapKey = h)
         \<and> ur_effects res = effects0 @ sync_effects h 0 insts)
   \<and> (insts = pre @ inst # post \<and> fst (sync_instances d h 0 pre) = (True, None)
        \<and> annotation_of (in_Annotations inst) LastConfigMapKey \<noteq> h
        \<and> ud_updatePodDynamicConf d inst = (False, err)
       \<longrightarrow> \<not> ur_done res \<and> ur_err res = err \<and> drop (length pre) (ur_instances res) = inst # post
          \<and> (\<forall>e \<in> set (ur_effects res). \<forall>k. effect_index e = Some k \<longrightarrow> k \<le> length pre))"
  proof (intro conjI allI impI ballI; (elim conjE)?)
    show "length (ur_instances res) = length insts"
      unfolding res out by (simp add: sync_instances_length)
  next
    fix k assume k: "k < length insts"
      "annotation_of (in_Annotations (insts ! k)) LastConfigMapKey = h"
    then show "ur_instances res ! k = insts ! k"
      unfolding res out by (simp add: sync_instances_untouched)
    fix e assume "e \<in> set (ur_effects res)"
    then consider "e \<in> set effects0" | "e \<in> set effs" unfolding res by auto
    then show "effect_index e \<noteq> Some k"
    proof cases
      case 1
      then show ?thesis using e0 by simp
    next
      case 2
      from sync_instances_indices [OF 2 [unfolded effs]] k show ?thesis by auto
    qed
  next
    assume d: "ur_done res" "ur_err res = None"
    then have f: "fst (sync_instances d h 0 insts) = (True, None)"
      unfolding res using run by simp
    note D = sync_instances_done [OF f]
    from D show "ur_effects res = effects0 @ sync_effects h 0 insts"
      unfolding res effs by simp
    fix inst' assume "inst' \<in> set (ur_instances res)"
    with D show "annotation_of (in_Annotations inst') LastConfigMapKey = h"
      unfolding res out by simp
  next
    assume a: "insts = pre @ inst # post" "fst (sync_instances d h 0 pre) = (True, None)"
      "annotation_of (in_Annotations inst) LastConfigMapKey \<noteq> h"
      "ud_updatePodDynamicConf d inst = (False, err)"
    obtain pre' effs' where p: "sync_instances d h 0 pre = ((True, None), pre', effs')"
      using a(2) by (cases "sync_instances d h 0 pre") auto
    from sync_instances_failure [OF p a(3,4), of post] run a(1)
    have r: "fin = False" "err' = err" "out = pre' @ inst # post"
        "effs = effs' @ [ConfPushed (length pre)]"
      by simp_all
    have lp: "length pre' = length pre"
      using sync_instances_length [of d h 0 pre] p by simp
    show "\<not> ur_done res" and "ur_err res = err" unfolding res using r by simp_all
    show "drop (length pre) (ur_instances res) = inst # post"
      unfolding res using r lp by simp
    fix e k assume e: "e \<in> set (ur_effects res)" "effect_index e = Some k"
    then consider "e \<in> set effects0" | "e \<in> set effs'" | "e = ConfPushed (length pre)"
      unfolding res using r by auto
    then show "k \<le> length pre"
    proof cases
      case 1
      with e0 e(2) show ?thesis by simp
    next
      case 2
      with p have "e \<in> set (snd (snd (sync_instances d h 0 pre)))" by simp
      from sync_instances_indices [OF this] e(2) show ?thesis by auto
    next
      case 3
      with e(2) show ?thesis by simp
    qed
  qed
  have idx: "\<And>pre' effs' e k. sync_instances d h 0 pre = ((True, None), pre', effs') \<Longrightarrow>
      e \<in> set (effects0 @ effs') \<Longrightarrow> effect_index e = Some k \<Longrightarrow> k \<le> length pre"
  proof -
    fix pre' effs' e k
    assume p: "sync_instances d h 0 pre = ((True, None), pre', effs')"
      and e: "e \<in> set (effects0 @ effs')" "effect_index e = Some k"
    from e(1) consider "e \<in> set effects0" | "e \<in> set effs'" by auto
    then show "k \<le> length pre"
    proof cases
      case 1
      with e0 e(2) show ?thesis by simp
    next
      case 2
      with p have "e \<in> set (snd (snd (sync_instances d h 0 pre)))" by simp
      from sync_instances_indices [OF this] e(2) show ?thesis by auto
    qed
  qed
  have meta: "insts = pre @ inst # post \<and> fst (sync_instances d h 0 pre) = (True, None)
        \<and> annotation_of (in_Annotations inst) LastConfigMapKey \<noteq> h
        \<and> fst (ud_updatePodDynamicConf d inst) \<and> in_Annotations inst \<noteq> None
        \<and> ud_UpdateMetadata d (stamp h inst) = Some merr
       \<longrightarrow> \<not> ur_done res \<and> ur_err res = Some merr
          \<and> drop (length pre) (ur_instances res) = stamp h inst # post
          \<and> (\<forall>e \<in> set (ur_effects res). \<forall>k. effect_index e = Some k \<longrightarrow> k \<le> length pre)"
  proof (intro impI, elim conjE)
    assume a: "insts = pre @ inst # post" "fst (sync_instances d h 0 pre) = (True, None)"
      "annotation_of (in_Annotations inst) LastConfigMapKey \<noteq> h"
      "fst (ud_updatePodDynamicConf d inst)" "in_Annotations inst \<noteq> None"
      "ud_UpdateMetadata d (stamp h inst) = Some merr"
    obtain pre' effs' where p: "sync_instances d h 0 pre = ((True, None), pre', effs')"
      using a(2) by (cases "sync_instances d h 0 pre") auto
    from sync_instances_meta_failure [OF p a(3,4,5,6), of post] run a(1)
    have r: "fin = False" "err' = Some merr" "out = pre' @ stamp h inst # post"
        "effs = effs' @ [ConfPushed (length pre), MetadataUpdated (length pre) (stamp h inst)]"
      by simp_all
    have lp: "length pre' = length pre"
      using sync_instances_length [of d h 0 pre] p by simp
    have i: "\<forall>e \<in> set (ur_effects res). \<forall>k. effect_index e = Some k \<longrightarrow> k \<le> length pre"
    proof (intro ballI allI impI)
      fix e k assume e: "e \<in> set (ur_effects res)" "effect_index e = Some k"
      then consider "e \<in> set (effects0 @ effs')" | "e = ConfPushed (length pre)"
        | "e = MetadataUpdated (length pre) (stamp h inst)"
        unfolding res using r by auto
      then show "k \<le> length pre"
      proof cases
        case 1
        from idx [OF p 1 e(2)] show ?thesis .
      next
        case 2
        with e(2) show ?thesis by simp
      next
        case 3
        with e(2) show ?thesis by simp
      qed
    qed
    show "\<not> ur_done res \<and> ur_err res = Some merr
          \<and> drop (length pre) (ur_instances res) = stamp h inst # post
          \<and> (\<forall>e \<in> set (ur_effects res). \<forall>k. effect_index e = Some k \<longrightarrow> k \<le> length pre)"
      using i unfolding res using r lp by simp
  qed
  have nilmap: "insts = pre @ inst # post \<and> fst (sync_instances d h 0 pre) = (True, None)
        \<and> annotation_of (in_Annotations inst) LastConfigMapKey \<noteq> h
        \<and> fst (ud_updatePodDynamicConf d inst) \<and> in_Annotations inst = None
       \<longrightarrow> \<not> ur_done res \<and> ur_err res = Some (Panic ''assignment to entry in nil map'')
          \<and> drop (length pre) (ur_instances res) = inst # post
          \<and> (\<forall>e \<in> set (ur_effects res). \<forall>k. effect_index e = Some k \<longrightarrow> k \<le> length pre)"
  proof (intro impI, elim conjE)
    assume a: "insts = pre @ inst # post" "fst (sync_instances d h 0 pre) = (True, None)"
      "annotation_of (in_Annotations inst) LastConfigMapKey \<noteq> h"
      "fst (ud_updatePodDynamicConf d inst)" "in_Annotations inst = None"
    obtain pre' effs' where p: "sync_instances d h 0 pre = ((True, None), pre', effs')"
      using a(2) by (cases "sync_instances d h 0 pre") auto
    from sync_instances_nil_map [OF p a(3,4,5), of post] run a(1)
    have r: "fin = False" "err' = Some (Panic ''assignment to entry in nil map'')"
        "out = pre' @ inst # post" "effs = effs' @ [ConfPushed (length pre)]"
      by simp_all
    have lp: "length pre' = length pre"
      using sync_instances_length [of d h 0 pre] p by simp
    have i: "\<forall>e \<in> set (ur_effects res). \<forall>k. effect_index e = Some k \<longrightarrow> k \<le> length pre"
    proof (intro ballI allI impI)
      fix e k assume e: "e \<in> set (ur_effects res)" "effect_index e = Some k"
      then consider "e \<in> set (effects0 @ effs')" | "e = ConfPushed (length pre)"
        unfolding res using r by auto
      then show "k \<le> length pre"
      proof cases
        case 1
        from idx [OF p 1 e(2)] show ?thesis .
      next
        case 2
        with e(2) show ?thesis by simp
      qed
    qed
    show "\<not> ur_done res \<and> ur_err res = Some (Panic ''assignment to entry in nil map'')
          \<and> drop (length pre) (ur_instances res) = inst # post
          \<and> (\<forall>e \<in> set (ur_effects res). \<forall>k. effect_index e = Some k \<longrightarrow> k \<le> length pre)"
      using i unfolding res using r lp by simp
  qed
  have fin_iff: "(ur_done res \<and> ur_err res = None) \<longleftrightarrow>
        (\<forall>i \<in> set insts. annotation_of (in_Annotations i) LastConfigMapKey \<noteq> h \<longrightarrow>
            fst (ud_updatePodDynamicConf d i) \<and> in_Annotations i \<noteq> None
            \<and> ud_UpdateMetadata d (stamp h i) = None)"
    using sync_instances_done_iff [of d h 0 insts] unfolding res run by simp
  have no_err: "ur_done res \<longrightarrow> ur_err res = None"
    using sync_instances_done_no_error [of d h 0 insts] unfolding res run by simp
  have pre_iff: "fst (sync_instances d h 0 pre) = (True, None) \<longleftrightarrow>
        (\<forall>i \<in> set pre. annotation_of (in_Annotations i) LastConfigMapKey \<noteq> h \<longrightarrow>
            fst (ud_updatePodDynamicConf d i) \<and> in_Annotations i \<noteq> None
            \<and> ud_UpdateMetadata d (stamp h i) = None)"
    by (rule sync_instances_done_iff)
  from old meta nilmap fin_iff no_err pre_iff
  show "length (ur_instances res) = length insts
   \<and> (\<forall>k < length insts. annotation_of (in_Annotations (insts ! k)) LastConfigMapKey = h \<longrightarrow>
         ur_instances res ! k = insts ! k \<and> (\<forall>e \<in> set (ur_effects res). effect_index e \<noteq> Some k))
   \<and> (ur_done res \<and> ur_err res = None \<longrightarrow>
         (\<forall>inst \<in> set (ur_instances res). annotation_of (in_Annotations inst) LastConfigMapKey = h)
         \<and> ur_effects res = effects0 @ sync_effects h 0 insts)
   \<and> (insts = pre @ inst # post \<and> fst (sync_instances d h 0 pre) = (True, None)
        \<and> annotation_of (in_Annotations inst) LastConfigMapKey \<noteq> h
        \<and> ud_updatePodDynamicConf d inst = (False, err)
       \<longrightarrow> \<not> ur_done res \<and> ur_err res = err \<and> drop (length pre) (ur_instances res) = inst # post
          \<and> (\<forall>e \<in> set (ur_effects res). \<forall>k. effect_index e = Some k \<longrightarrow> k \<le> length pre))
   \<and> (insts = pre @ inst # post \<and> fst (sync_instances d h 0 pre) = (True, None)
        \<and> annotation_of (in_Annotations inst) LastConfigMapKey \<noteq> h
        \<and> fst (ud_updatePodDynamicConf d inst) \<and> in_Annotations inst \<noteq> None
        \<and> ud_UpdateMetadata d (stamp h inst) = Some merr
       \<longrightarrow> \<not> ur_done res \<and> ur_err res = Some merr
          \<and> drop (length pre) (ur_instances res) = stamp h inst # post
          \<and> (\<forall>e \<in> set (ur_effects res). \<forall>k. effect_index e = Some k \<longrightarrow> k \<le> length pre))
   \<and> (insts = pre @ inst # post \<and> fst (sync_instances d h 0 pre) = (True, None)
        \<and> annotation_of (in_Annotations inst) LastConfigMapKey \<noteq> h
        \<and> fst (ud_updatePodDynamicConf d inst) \<and> in_Annotations inst = None
       \<longrightarrow> \<not> ur_done res \<and> ur_err res = Some (Panic ''assignment to entry in nil map'')
          \<and> drop (length pre) (ur_instances res) = inst # post
          \<and> (\<forall>e \<in> set (ur_effects res). \<forall>k. effect_index e = Some k \<longrightarrow> k \<le> length pre))
   \<and> ((ur_done res \<and> ur_err res = None) \<longleftrightarrow>
        (\<forall>i \<in> set insts. annotation_of (in_Annotations i) LastConfigMapKey \<noteq> h \<longrightarrow>
            fst (ud_updatePodDynamicConf d i) \<and> in_Annotations i \<noteq> None
            \<and> ud_UpdateMetadata d (stamp h i) = None))
   \<and> (ur_done res \<longrightarrow> ur_err res = None)
   \<and> (fst (sync_instances d h 0 pre) = (True, None) \<longleftrightarrow>
        (\<forall>i \<in> set pre. annotation_of (in_Annotations i) LastConfigMapKey \<noteq> h \<longrightarrow>
            fst (ud_updatePodDynamicConf d i) \<and> in_Annotations i \<noteq> None
            \<and> ud_UpdateMetadata d (stamp h i) = None))"
    by (elim conjE, intro conjI) assumption+
qed

lemma synced_instance_simps:
  "annotation_of (in_Annotations (synced_instance ident c)) LastConfigMapKey = c"
  "in_InstanceID (synced_instance ident c) = ident"
  "in_Annotations (synced_instance ident c) \<noteq> None"
  by (simp_all add: synced_instance_def annotation_of_def)

text \<open>
  Four instances: the first is up to date, the second is brought up to date, the push to
  the third fails. The step returns not done with that error, the first, third and fourth
  instances are unchanged, and the effects concern the second and the third only. With
  every push succeeding and the update of the third instance's metadata refused, the step
  returns not done with the error of that update.
\<close>

theorem UpdateConfigMap_sync_witness:
  "\<not> ur_done (UpdateConfigMap_Reconcile demo_update_deps)
   \<and> ur_err (UpdateConfigMap_Reconcile demo_update_deps) = Some (Err ''sidecar unreachable'')
   \<and> ur_instances (UpdateConfigMap_Reconcile demo_update_deps) ! 0 = synced_instance ''storage-1'' ''hash-2''
   \<and> drop 2 (ur_instances (UpdateConfigMap_Reconcile demo_update_deps))
       = [synced_instance ''storage-3'' ''hash-1'', synced_instance ''storage-4'' ''hash-1'']
   \<and> map effect_index (ur_effects (UpdateConfigMap_Reconcile demo_update_deps))
       = [Some 1, Some 1, Some 2]
   \<and> \<not> ur_done (UpdateConfigMap_Reconcile conflict_update_deps)
   \<and> ur_err (UpdateConfigMap_Reconcile conflict_update_deps) = Some (Err ''conflict'')
   \<and> drop 2 (ur_instances (UpdateConfigMap_Reconcile conflict_update_deps))
       = [stamp ''hash-2'' (synced_instance ''storage-3'' ''hash-1''), synced_instance ''storage-4'' ''hash-1'']"
proof -
  let ?i1 = "synced_instance ''storage-1'' ''hash-2''" and ?i2 = "synced_instance ''storage-2'' ''hash-1''"
  let ?i3 = "synced_instance ''storage-3'' ''hash-1''" and ?i4 = "synced_instance ''storage-4'' ''hash-1''"
  have phase: "config_map_phase demo_update_deps = Inr (''hash-2'', [])"
    by (simp add: config_map_phase_def demo_update_deps_def Let_def)
  have listed: "ud_GetInstances demo_update_deps = Inr ([?i1, ?i2] @ ?i3 # [?i4])"
    by (simp add: demo_update_deps_def)
  have push: "\<And>ident c. ud_updatePodDynamicConf demo_update_deps (synced_instance ident c) =
      (if ident = ''storage-3'' then (False, Some (Err ''sidecar unreachable'')) else (True, None))"
    by (simp add: demo_update_deps_def synced_instance_simps)
  have meta: "\<And>inst. ud_UpdateMetadata demo_update_deps inst = None"
    by (simp add: demo_update_deps_def)
  have pre: "fst (sync_instances demo_update_deps ''hash-2'' 0 [?i1, ?i2]) = (True, None)"
    by (simp add: sync_instances_Cons synced_instance_simps push meta)
  note T = UpdateConfigMap_sync
     [where d = demo_update_deps and h = "''hash-2''" and ?effects0.0 = "[]"
        and insts = "[?i1, ?i2] @ ?i3 # [?i4]" and pre = "[?i1, ?i2]" and inst = ?i3
        and post = "[?i4]" and err = "Some (Err ''sidecar unreachable'')", rule_format,
      OF conjI [OF phase listed]]
  have a: "\<not> ur_done (UpdateConfigMap_Reconcile demo_update_deps)
       \<and> ur_err (UpdateConfigMap_Reconcile demo_update_deps) = Some (Err ''sidecar unreachable'')
       \<and> drop 2 (ur_instances (UpdateConfigMap_Reconcile demo_update_deps)) = [?i3, ?i4]
       \<and> (\<forall>e \<in> set (ur_effects (UpdateConfigMap_Reconcile demo_update_deps)).
             \<forall>k. effect_index e = Some k \<longrightarrow> k \<le> 2)"
    using T [THEN conjunct2, THEN conjunct2, THEN conjunct2, THEN conjunct1] pre
    by (simp add: synced_instance_simps push numeral_2_eq_2)
  have b: "ur_instances (UpdateConfigMap_Reconcile demo_update_deps) ! 0 = ?i1
       \<and> (\<forall>e \<in> set (ur_effects (UpdateConfigMap_Reconcile demo_update_deps)). effect_index e \<noteq> Some 0)"
    using T [THEN conjunct2, THEN conjunct1, rule_format, of 0]
    by (simp add: synced_instance_simps)
  have c: "map effect_index (ur_effects (UpdateConfigMap_Reconcile demo_update_deps))
             = [Some 1, Some 1, Some 2]"
    using phase listed
    by (simp add: UpdateConfigMap_Reconcile_def sync_instances_Cons synced_instance_simps push meta)
  have phase2: "config_map_phase conflict_update_deps = Inr (''hash-2'', [])"
    by (simp add: config_map_phase_def conflict_update_deps_def demo_update_deps_def Let_def)
  have listed2: "ud_GetInstances conflict_update_deps = Inr ([?i1, ?i2] @ ?i3 # [?i4])"
    by (simp add: conflict_update_deps_def demo_update_deps_def)
  have push2: "\<And>inst. ud_updatePodDynamicConf conflict_update_deps inst = (True, None)"
    by (simp add: conflict_update_deps_def)
  have sid: "\<And>ident c hh. in_InstanceID (stamp hh (synced_instance ident c)) = ident"
    by (simp add: stamp_def synced_instance_def)
  have meta2: "\<And>ident c hh. ud_UpdateMetadata conflict_update_deps (stamp hh (synced_instance ident c)) =
      (if ident = ''storage-3'' then Some (Err ''conflict'') else None)"
    by (simp add: conflict_update_deps_def sid)
  have pre2: "fst (sync_instances conflict_update_deps ''hash-2'' 0 [?i1, ?i2]) = (True, None)"
    by (simp add: sync_instances_Cons synced_instance_simps push2 meta2)
  note T2 = UpdateConfigMap_sync
     [where d = conflict_update_deps and h = "''hash-2''" and ?effects0.0 = "[]"
        and insts = "[?i1, ?i2] @ ?i3 # [?i4]" and pre = "[?i1, ?i2]" and inst = ?i3
        and post = "[?i4]" and merr = "Err ''conflict''", rule_format,
      OF conjI [OF phase2 listed2]]
  have e: "\<not> ur_done (UpdateConfigMap_Reconcile conflict_update_deps)
       \<and> ur_err (UpdateConfigMap_Reconcile conflict_update_deps) = Some (Err ''conflict'')
       \<and> drop 2 (ur_instances (UpdateConfigMap_Reconcile conflict_update_deps))
           = [stamp ''hash-2'' ?i3, ?i4]"
    using T2 [THEN conjunct2, THEN conjunct2, THEN conjunct2, THEN conjunct2, THEN conjunct1] pre2
    by (simp add: synced_instance_simps push2 meta2 numeral_2_eq_2)
  from a b c e show ?thesis by simp
qed

section \<open>Instance identifiers\<close>

lemma no_dash_rev: "CHR ''-'' \<notin> set t \<Longrightarrow> \<forall>x \<in> set (rev t). x \<noteq> CHR ''-''"
  by auto

lemma takeWhile_until:
  "\<forall>x \<in> set u. x \<noteq> d \<Longrightarrow> takeWhile (\<lambda>c. c \<noteq> d) (u @ d # v) = u"
  by (induction u) auto

lemma dropWhile_until:
  "\<forall>x \<in> set u. x \<noteq> d \<Longrightarrow> dropWhile (\<lambda>c. c \<noteq> d) (u @ d # v) = d # v"
  by (induction u) auto

lemma takeWhile_whole:
  "\<forall>x \<in> set u. x \<noteq> d \<Longrightarrow> takeWhile (\<lambda>c. c \<noteq> d) u = u"
  by (induction u) auto

lemma last_component_append:
  assumes "CHR ''-'' \<notin> set t"
  shows "last_component (a @ CHR ''-'' # t) = t"
proof -
  have "takeWhile (\<lambda>c. c \<noteq> CHR ''-'') (rev t @ CHR ''-'' # rev a) = rev t"
    using no_dash_rev [OF assms] by (rule takeWhile_until)
  then show ?thesis by (simp add: last_component_def)
qed

lemma last_component_whole:
  assumes "CHR ''-'' \<notin> set t"
  shows "last_component t = t"
proof -
  have "takeWhile (\<lambda>c. c \<noteq> CHR ''-'') (rev t) = rev t"
    using no_dash_rev [OF assms] by (rule takeWhile_whole)
  then show ?thesis unfolding last_component_def by (simp only: rev_rev_ident)
qed

lemma but_last_component_append:
  assumes "CHR ''-'' \<notin> set t"
  shows "but_last_component (a @ CHR ''-'' # t) = a"
proof -
  have "dropWhile (\<lambda>c. c \<noteq> CHR ''-'') (rev t @ CHR ''-'' # rev a) = CHR ''-'' # rev a"
    using no_dash_rev [OF assms] by (rule dropWhile_until)
  then show ?thesis by (simp add: but_last_component_def)
qed

lemma digit_char_val: "d < 10 \<Longrightarrow> (of_char (digit_char d) :: nat) = 48 + d"
  by (simp add: digit_char_def)

lemma digit_char_props:
  "d < 10 \<Longrightarrow> is_digit (digit_char d) \<and> digit_char d \<noteq> CHR ''-''"
proof -
  assume d: "d < 10"
  have "(of_char (CHR ''-'') :: nat) = 45" by simp
  with digit_char_val [OF d] d show ?thesis
    by (auto simp: is_digit_def)
qed

lemma parse_nat_snoc: "parse_nat (s @ [c]) = 10 * parse_nat s + ((of_char c :: nat) - 48)"
  by (simp add: parse_nat_def)

lemma nat_digits_props:
  "parse_nat (nat_digits n) = n \<and> list_all is_digit (nat_digits n)
   \<and> CHR ''-'' \<notin> set (nat_digits n) \<and> nat_digits n \<noteq> []"
proof (induction n rule: nat_digits.induct)
  case (1 n)
  show ?case
  proof (cases "n < 10")
    case True
    with digit_char_props [of n] digit_char_val [of n] show ?thesis
      by (subst (1 2 3 4) nat_digits.simps) (auto simp: parse_nat_def)
  next
    case False
    have m: "n mod 10 < 10" by simp
    from False 1 digit_char_props [OF m] digit_char_val [OF m] show ?thesis
      by (subst (1 2 3 4) nat_digits.simps) (auto simp: parse_nat_snoc)
  qed
qed

lemma nat_digits_one: "nat_digits (Suc 0) = ''1''"
  using nat_digits_small [of 1] digit_char_simps(2) by simp

lemma InstanceID_split:
  "\<exists>front. InstanceID prefix processClass n = front @ CHR ''-'' # nat_digits n
         \<and> (front = processClass \<or> front = prefix @ CHR ''-'' # processClass)"
  by (simp add: InstanceID_def)

text \<open>
  Claim C7, as amended. For every prefix, every process class without a dash and every
  positive number, parsing the identifier built from them returns the process class and
  the number. \<open>ParseInstanceID\<close> fails with \<open>MalformedIdentifier\<close> exactly when the
  trailing component of the identifier is not a positive integer.
\<close>

theorem ParseInstanceID_InstanceID:
  "(0 < n \<and> CHR ''-'' \<notin> set processClass \<longrightarrow>
      ParseInstanceID (InstanceID prefix processClass n) = Inr (processClass, n))
   \<and> (ParseInstanceID ident = Inl MalformedIdentifier \<longleftrightarrow> \<not> positive_integer (last_component ident))"
proof (intro conjI impI)
  show "ParseInstanceID ident = Inl MalformedIdentifier \<longleftrightarrow> \<not> positive_integer (last_component ident)"
    by (simp add: ParseInstanceID_def Let_def)
next
  assume a: "0 < n \<and> CHR ''-'' \<notin> set processClass"
  note d = nat_digits_props [of n]
  from d have nd: "CHR ''-'' \<notin> set (nat_digits n)" by simp
  from InstanceID_split [of prefix processClass n] obtain front where
    f: "InstanceID prefix processClass n = front @ CHR ''-'' # nat_digits n"
       "front = processClass \<or> front = prefix @ CHR ''-'' # processClass"
    by (elim exE conjE)
  have t: "last_component (InstanceID prefix processClass n) = nat_digits n"
    unfolding f(1) using nd by (rule last_component_append)
  have b: "but_last_component (InstanceID prefix processClass n) = front"
    unfolding f(1) using nd by (rule but_last_component_append)
  from a have pc: "CHR ''-'' \<notin> set processClass" by simp
  have c: "last_component front = processClass"
    using f(2) last_component_whole [OF pc] last_component_append [OF pc, of prefix] by auto
  have p: "positive_integer (nat_digits n)"
    using d a by (simp add: positive_integer_def)
  show "ParseInstanceID (InstanceID prefix processClass n) = Inr (processClass, n)"
    unfolding ParseInstanceID_def Let_def t b c using p d by simp
qed

theorem ParseInstanceID_InstanceID_witness:
  "InstanceID ''dc1'' ''storage'' 1 = ''dc1-storage-1''
   \<and> ParseInstanceID ''dc1-storage-1'' = Inr (''storage'', 1)"
proof -
  have i: "InstanceID ''dc1'' ''storage'' 1 = ''dc1-storage-1''"
    by (simp add: InstanceID_def nat_digits_one)
  from ParseInstanceID_InstanceID [of 1 "''storage''" "''dc1''"] i show ?thesis by simp
qed

lemma dashed_class_parse: "ParseInstanceID ''a-b-1'' = Inr (''b'', 1)"
proof -
  have t: "last_component (''a-b'' @ CHR ''-'' # ''1'') = ''1''"
    by (rule last_component_append) simp
  have b: "but_last_component (''a-b'' @ CHR ''-'' # ''1'') = ''a-b''"
    by (rule but_last_component_append) simp
  have c: "last_component (''a'' @ CHR ''-'' # ''b'') = ''b''"
    by (rule last_component_append) simp
  have p: "positive_integer ''1'' \<and> parse_nat ''1'' = 1"
    by (simp add: positive_integer_def is_digit_def parse_nat_def)
  from t b c p show ?thesis by (simp add: ParseInstanceID_def Let_def)
qed

text \<open>
  Claim C7 as stated fails for a process class with a dash: the prefix \<open>a\<close> with the
  class \<open>b\<close> and no prefix with the class \<open>a-b\<close> give the same identifier, so no parser
  returns the class of both, and this one does not return \<open>a-b\<close>.
\<close>

theorem ParseInstanceID_dash_counterexample:
  "InstanceID [] ''a-b'' 1 = InstanceID ''a'' ''b'' 1
   \<and> ParseInstanceID (InstanceID [] ''a-b'' 1) \<noteq> Inr (''a-b'', 1)"
proof -
  have i: "InstanceID [] ''a-b'' 1 = ''a-b-1''" "InstanceID ''a'' ''b'' 1 = ''a-b-1''"
    by (simp_all add: InstanceID_def nat_digits_one)
  show ?thesis unfolding i dashed_class_parse by simp
qed

section \<open>Override layers\<close>

lemma image_of_override_same:
  "c_Image ov \<noteq> [] \<Longrightarrow> image_of (apply_override cs ov) (c_Name ov) = Some (c_Image ov)"
  by (induction cs) (simp_all add: image_of_def merge_container_def)

lemma image_of_override_other:
  "c_Name ov \<noteq> x \<Longrightarrow> image_of (apply_override cs ov) x = image_of cs x"
  by (induction cs) (auto simp: image_of_def merge_container_def)

lemma image_of_layer_other:
  "\<forall>ov \<in> set layer. c_Name ov \<noteq> x \<Longrightarrow> image_of (apply_layer cs layer) x = image_of cs x"
  unfolding apply_layer_def
  by (induction layer arbitrary: cs) (simp_all add: image_of_override_other)

lemma image_of_layer_same:
  "distinct (map c_Name layer) \<Longrightarrow> ov \<in> set layer \<Longrightarrow> c_Image ov \<noteq> [] \<Longrightarrow>
   image_of (apply_layer cs layer) (c_Name ov) = Some (c_Image ov)"
proof (induction layer arbitrary: cs)
  case Nil
  then show ?case by simp
next
  case (Cons o' layer)
  show ?case
  proof (cases "o' = ov")
    case True
    from Cons.prems(1) True have "c_Name ov \<notin> c_Name ` set layer" by simp
    then have "\<forall>c \<in> set layer. c_Name c \<noteq> c_Name ov" by (metis imageI)
    from image_of_layer_other [OF this, of "apply_override cs ov"]
    have "image_of (apply_layer (apply_override cs ov) layer) (c_Name ov)
            = image_of (apply_override cs ov) (c_Name ov)" .
    with True Cons.prems(3) show ?thesis
      by (simp add: apply_layer_def image_of_override_same)
  next
    case False
    with Cons.prems have "distinct (map c_Name layer)" "ov \<in> set layer" by auto
    from Cons.IH [OF this Cons.prems(3), of "apply_override cs o'"] show ?thesis
      by (simp add: apply_layer_def)
  qed
qed

lemma layered_containers_unfold:
  "layered_containers builtin flat global perClass
     = apply_layer (apply_layer (apply_layer builtin flat) global) perClass"
  by (simp add: layered_containers_def)

text \<open>
  Claim C4. With the layers applied in ascending precedence, the image that the result
  gives to a container name is the one of the highest layer that names the container and
  sets its image: the pod template of the process class, whatever the global template and
  the lower layers set; then the global template; then the deprecated flat fields; and
  the built-in value when no layer names the container. The container names of a layer
  are distinct.
\<close>

theorem per_class_image_wins:
  "(distinct (map c_Name perClass) \<and> ov \<in> set perClass \<and> c_Image ov \<noteq> [] \<longrightarrow>
      image_of (layered_containers builtin flat global perClass) (c_Name ov) = Some (c_Image ov))
   \<and> (distinct (map c_Name global) \<and> ov \<in> set global \<and> c_Image ov \<noteq> []
        \<and> (\<forall>c \<in> set perClass. c_Name c \<noteq> c_Name ov) \<longrightarrow>
      image_of (layered_containers builtin flat global perClass) (c_Name ov) = Some (c_Image ov))
   \<and> (distinct (map c_Name flat) \<and> ov \<in> set flat \<and> c_Image ov \<noteq> []
        \<and> (\<forall>c \<in> set global. c_Name c \<noteq> c_Name ov) \<and> (\<forall>c \<in> set perClass. c_Name c \<noteq> c_Name ov) \<longrightarrow>
      image_of (layered_containers builtin flat global perClass) (c_Name ov) = Some (c_Image ov))
   \<and> ((\<forall>c \<in> set flat. c_Name c \<noteq> x) \<and> (\<forall>c \<in> set global. c_Name c \<noteq> x)
        \<and> (\<forall>c \<in> set perClass. c_Name c \<noteq> x) \<longrightarrow>
      image_of (layered_containers builtin flat global perClass) x = image_of builtin x)"
  unfolding layered_containers_unfold
  by (simp add: image_of_layer_same image_of_layer_other)

text \<open>
  The global template and the template of the process class set different images for the
  built-in container \<open>foundationdb\<close>: the result carries the one of the process class.
\<close>

theorem per_class_image_wins_witness:
  "image_of
     (layered_containers
        [mainContainer ''foundationdb'' demo_cluster, sidecarContainer ''foundationdb'' demo_cluster]
        []
        [image_override ''foundationdb'' ''registry/global:1'']
        [image_override ''foundationdb'' ''registry/storage:2''])
     ''foundationdb''
   = Some ''registry/storage:2''"
proof -
  have n: "c_Name (image_override ''foundationdb'' ''registry/storage:2'') = ''foundationdb''"
    and i: "c_Image (image_override ''foundationdb'' ''registry/storage:2'') = ''registry/storage:2''"
    by (simp_all add: image_override_def)
  from per_class_image_wins
         [of "[image_override ''foundationdb'' ''registry/storage:2'']"
             "image_override ''foundationdb'' ''registry/storage:2''"
             "[mainContainer ''foundationdb'' demo_cluster, sidecarContainer ''foundationdb'' demo_cluster]"
             "[]" "[image_override ''foundationdb'' ''registry/global:1'']", THEN conjunct1]
  show ?thesis by (simp add: n i)
qed

end
